theory Spec2Isabelle
  imports Main "HOL-Library.Word"
begin

unbundle bit_operations_syntax

section \<open>Python values, exceptions and printed output\<close>

text \<open>
  The tool \<^verbatim>\<open>tools/coin_gen.py\<close> works on records loaded from JSON. A value of such a
  record is one of the constructors below. Strings are byte strings in UTF-8.
\<close>

type_synonym byte = "8 word"

datatype pyval =
    PNone
  | PBool bool
  | PInt int
  | PStr string
  | PBytes "byte list"
  | PList "pyval list"

text \<open>Every exception the tool can raise is a value; \<open>Inl\<close> of a result is a raise.\<close>

datatype error =
    KeyError string
  | NameError string
  | AttributeError string
  | TypeError string
  | ValueError string
  | IndexError string
  | BinasciiError string
  | StructError string
  | RuntimeError string
  | IOError string
  | ClickException string
  | SystemExit int
  | LibraryError string

text \<open>
  One call of \<^verbatim>\<open>print\<close> is one event holding the positional arguments of the call.
  \<open>PrintNoEnd\<close> is a call with \<^verbatim>\<open>end=""\<close>, \<open>PrintExc\<close> prints a caught exception.
\<close>

datatype event =
    Print "pyval list"
  | PrintNoEnd "pyval list"
  | PrintExc error

text \<open>
  A coin record as the registry loader hands it over: the loader gives every record a
  string \<^verbatim>\<open>key\<close>, a string \<^verbatim>\<open>name\<close> and the path of its \<^verbatim>\<open>icon\<close>; all other entries
  are optional and live in \<open>entries\<close>.
\<close>

record coin =
  key :: string
  name :: string
  icon :: string
  entries :: "string \<rightharpoonup> pyval"

text \<open>
  The dictionary behind a record, \<^verbatim>\<open>coin.get(fname)\<close> (a missing entry reads as
  \<^verbatim>\<open>None\<close>) and \<^verbatim>\<open>coin.get(fname, default)\<close>.
\<close>

definition coin_lookup :: "coin \<Rightarrow> string \<Rightarrow> pyval option" where
  "coin_lookup c f =
     (if f = ''key'' then Some (PStr (key c))
      else if f = ''name'' then Some (PStr (name c))
      else if f = ''icon'' then Some (PStr (icon c))
      else entries c f)"

definition coin_get :: "coin \<Rightarrow> string \<Rightarrow> pyval" where
  "coin_get c f = (case coin_lookup c f of None \<Rightarrow> PNone | Some v \<Rightarrow> v)"

definition coin_get_default :: "coin \<Rightarrow> string \<Rightarrow> pyval \<Rightarrow> pyval" where
  "coin_get_default c f d = (case coin_lookup c f of None \<Rightarrow> d | Some v \<Rightarrow> v)"

text \<open>
  The result of \<^verbatim>\<open>coin_info.get_all()\<close>: the bitcoin-like coins, the misc coins, and the
  list that the method \<^verbatim>\<open>as_list()\<close> returns (every coin of every kind).
\<close>

record coins_info =
  coins :: "coin list"
  misc :: "coin list"
  as_list :: "coin list"

text \<open>\<^verbatim>\<open>sep.join(xs)\<close>\<close>

fun str_join :: "string \<Rightarrow> string list \<Rightarrow> string" where
  "str_join sep [] = []"
| "str_join sep [x] = x"
| "str_join sep (x # y # ys) = x @ sep @ str_join sep (y # ys)"

section \<open>Validation functions\<close>

subsection \<open>check_support\<close>

text \<open>\<^verbatim>\<open>coin_names = {coin["key"]: coin["name"] for coin in coin_list}\<close>: a later coin wins.\<close>

fun coin_names_of :: "coin list \<Rightarrow> (string \<rightharpoonup> string) \<Rightarrow> (string \<rightharpoonup> string)" where
  "coin_names_of [] m = m"
| "coin_names_of (c # cs) m = coin_names_of cs (m(key c \<mapsto> name c))"

definition coin_name :: "(string \<rightharpoonup> string) \<Rightarrow> string \<Rightarrow> string" where
  "coin_name coin_names k =
     (case coin_names k of
        Some n \<Rightarrow> k @ '' ('' @ n @ '')''
      | None \<Rightarrow> k @ '' <unknown key>'')"

text \<open>
  The state of each loop is the flag \<^verbatim>\<open>check_passed\<close> and the lines printed so far.
  First loop (lines 87-92): the structure of every support entry.
\<close>

fun support_invalid_loop ::
  "('s \<Rightarrow> string list) \<Rightarrow> (string \<rightharpoonup> string) \<Rightarrow> (string \<times> 's) list
     \<Rightarrow> bool \<times> event list \<Rightarrow> bool \<times> event list" where
  "support_invalid_loop validate_support cn [] st = st"
| "support_invalid_loop validate_support cn ((k, support) # rest) (check_passed, out) =
     (let errors = validate_support support in
      if errors \<noteq> [] then
        support_invalid_loop validate_support cn rest
          (False,
           out @ [Print [PStr ''ERR:'', PStr ''invalid definition for'', PStr (coin_name cn k)],
                  Print [PStr (str_join ''\<newline>'' errors)]])
      else support_invalid_loop validate_support cn rest (check_passed, out))"

text \<open>
  Second loop (lines 97-103): expected coins without support info. Python iterates a set
  here, in no specified order; the model takes the keys in registry order, without
  repetition, and no theorem below depends on the order.
\<close>

fun support_missing_loop ::
  "(string \<rightharpoonup> string) \<Rightarrow> string list \<Rightarrow> bool \<Rightarrow> string list
     \<Rightarrow> bool \<times> event list \<Rightarrow> bool \<times> event list" where
  "support_missing_loop cn support_keys fail_missing [] st = st"
| "support_missing_loop cn support_keys fail_missing (c # rest) (check_passed, out) =
     (if c \<notin> set support_keys then
        (if fail_missing then
           support_missing_loop cn support_keys fail_missing rest
             (False, out @ [Print [PStr ''ERR: Missing support info for'', PStr (coin_name cn c)]])
         else
           support_missing_loop cn support_keys fail_missing rest
             (check_passed,
              out @ [Print [PStr ''WARN: Missing support info for'', PStr (coin_name cn c)]]))
      else support_missing_loop cn support_keys fail_missing rest (check_passed, out))"

text \<open>Third loop (lines 107-115): support info for unknown coins, and overrides.\<close>

fun support_unknown_loop ::
  "(string \<rightharpoonup> string) \<Rightarrow> string list \<Rightarrow> string list \<Rightarrow> string list
     \<Rightarrow> bool \<times> event list \<Rightarrow> bool \<times> event list" where
  "support_unknown_loop cn coin_set expected_coins [] st = st"
| "support_unknown_loop cn coin_set expected_coins (k # rest) (check_passed, out) =
     (let (p1, out1) =
            (if k \<notin> set coin_set then
               (False, out @ [Print [PStr ''ERR: Support info found for unknown coin'', PStr k]])
             else (check_passed, out));
          out2 =
            (if k \<notin> set expected_coins then
               out1 @ [Print [PStr ''INFO: Override present for coin'', PStr (coin_name cn k)]]
             else out1)
      in support_unknown_loop cn coin_set expected_coins rest (p1, out2))"

definition check_support ::
  "('s \<Rightarrow> string list) \<Rightarrow> coins_info \<Rightarrow> (string \<times> 's) list \<Rightarrow> bool
     \<Rightarrow> bool \<times> event list" where
  "check_support validate_support defs support_data fail_missing =
     (let coin_list = as_list defs;
          cn = coin_names_of coin_list Map.empty;
          st1 = support_invalid_loop validate_support cn support_data (True, []);
          expected_coins = remdups (map key (coins defs @ misc defs));
          st2 = support_missing_loop cn (map fst support_data) fail_missing expected_coins st1;
          coin_set = map key coin_list
      in support_unknown_loop cn coin_set expected_coins (map fst support_data) st2)"


subsection \<open>check_btc\<close>

fun check_btc_loop ::
  "(coin \<Rightarrow> string list) \<Rightarrow> coin list \<Rightarrow> bool \<times> event list \<Rightarrow> bool \<times> event list" where
  "check_btc_loop validate_btc [] st = st"
| "check_btc_loop validate_btc (c # rest) (check_passed, out) =
     (let errors = validate_btc c in
      if errors \<noteq> [] then
        check_btc_loop validate_btc rest
          (False,
           out @ [Print [PStr ''ERR:'', PStr ''invalid definition for'', PStr (name c)],
                  Print [PStr (str_join ''\<newline>'' errors)]])
      else check_btc_loop validate_btc rest (check_passed, out))"

text \<open>
  The report of \<^verbatim>\<open>coin_info.find_address_collisions\<close>: for every monitored field the
  colliding values, each with the coins that share it. The coins are held by their
  printed form, which is all that line 136 uses of them.
\<close>

type_synonym collisions = "(string \<times> (pyval \<times> string list) list) list"

fun dups_lines :: "(pyval \<times> string list) list \<Rightarrow> event list" where
  "dups_lines [] = []"
| "dups_lines ((k, v) # rest) =
     Print [PStr ''-'', k, PStr '':'', PStr (str_join '', '' v)] # dups_lines rest"

fun collision_lines :: "collisions \<Rightarrow> event list" where
  "collision_lines [] = []"
| "collision_lines ((k, dups) # rest) =
     (if dups \<noteq> [] then Print [PStr ''WARN: collisions found in'', PStr k] # dups_lines dups
      else [])
     @ collision_lines rest"

definition check_btc ::
  "(coin \<Rightarrow> string list) \<Rightarrow> (coin list \<Rightarrow> collisions) \<Rightarrow> coin list \<Rightarrow> bool \<times> event list" where
  "check_btc validate_btc find_address_collisions cs =
     (let st = check_btc_loop validate_btc cs (True, []);
          collisions = find_address_collisions cs
      in (fst st, snd st @ collision_lines collisions))"

subsection \<open>check_backends\<close>

text \<open>Truth value of a Python value, the operator \<^verbatim>\<open>+\<close>, iteration and \<^verbatim>\<open>==\<close>.\<close>

fun truthy :: "pyval \<Rightarrow> bool" where
  "truthy PNone = False"
| "truthy (PBool b) = b"
| "truthy (PInt i) = (i \<noteq> 0)"
| "truthy (PStr s) = (s \<noteq> [])"
| "truthy (PBytes bs) = (bs \<noteq> [])"
| "truthy (PList xs) = (xs \<noteq> [])"

fun py_add :: "pyval \<Rightarrow> pyval \<Rightarrow> error + pyval" where
  "py_add (PList xs) (PList ys) = Inr (PList (xs @ ys))"
| "py_add (PStr s) (PStr t) = Inr (PStr (s @ t))"
| "py_add (PBytes s) (PBytes t) = Inr (PBytes (s @ t))"
| "py_add (PInt i) (PInt j) = Inr (PInt (i + j))"
| "py_add (PInt i) (PBool b) = Inr (PInt (i + of_bool b))"
| "py_add (PBool a) (PInt j) = Inr (PInt (of_bool a + j))"
| "py_add (PBool a) (PBool b) = Inr (PInt (of_bool a + of_bool b))"
| "py_add _ _ = Inl (TypeError ''unsupported operand type(s) for +'')"

text \<open>Iterating a string yields its characters (exact for ASCII text).\<close>

fun py_iter :: "pyval \<Rightarrow> error + pyval list" where
  "py_iter (PList xs) = Inr xs"
| "py_iter (PStr s) = Inr (map (\<lambda>c. PStr [c]) s)"
| "py_iter (PBytes bs) = Inr (map (\<lambda>b. PInt (uint b)) bs)"
| "py_iter _ = Inl (TypeError ''object is not iterable'')"

fun py_norm :: "pyval \<Rightarrow> pyval" where
  "py_norm (PBool b) = PInt (of_bool b)"
| "py_norm (PList xs) = PList (map py_norm xs)"
| "py_norm v = v"

definition py_eq :: "pyval \<Rightarrow> pyval \<Rightarrow> bool" where
  "py_eq a b = (py_norm a = py_norm b)"

text \<open>
  The handle of the HTTP client: for a URL, the value of
  \<^verbatim>\<open>requests.get(url).json()["blockHash"]\<close>, or the exception that one of the three
  steps raises. The body of the \<^verbatim>\<open>try\<close> (lines 151-153) for one backend:
\<close>

type_synonym http_client = "string \<Rightarrow> error + pyval"

definition probe_backend :: "http_client option \<Rightarrow> pyval \<Rightarrow> pyval \<Rightarrow> error + unit" where
  "probe_backend requests genesis_block backend =
     (case requests of
        None \<Rightarrow> Inl (AttributeError ''get'')
      | Some get \<Rightarrow>
          (case backend of
             PStr b \<Rightarrow>
               (case get (b @ ''/api/block-index/0'') of
                  Inl e \<Rightarrow> Inl e
                | Inr h \<Rightarrow>
                    if \<not> py_eq h genesis_block
                    then Inl (RuntimeError ''genesis block mismatch'')
                    else Inr ())
           | _ \<Rightarrow> Inl (TypeError ''unsupported operand type(s) for +'')))"

fun backend_loop ::
  "http_client option \<Rightarrow> pyval \<Rightarrow> pyval list \<Rightarrow> bool \<times> event list \<Rightarrow> bool \<times> event list" where
  "backend_loop requests genesis_block [] st = st"
| "backend_loop requests genesis_block (backend # rest) (check_passed, out) =
     (let out1 = out @ [PrintNoEnd [PStr ''checking'', backend, PStr ''... '']] in
      case probe_backend requests genesis_block backend of
        Inl e \<Rightarrow> backend_loop requests genesis_block rest (False, out1 @ [PrintExc e])
      | Inr _ \<Rightarrow> backend_loop requests genesis_block rest (check_passed, out1 @ [Print [PStr ''OK'']]))"

text \<open>
  The backends of one coin (line 147); an exception here is not caught. The loop over the
  coins returns what was printed and either the flag or the exception.
\<close>

definition coin_backends :: "coin \<Rightarrow> error + pyval list" where
  "coin_backends c =
     (case py_add (coin_get_default c ''blockbook'' (PList []))
                  (coin_get_default c ''bitcore'' (PList [])) of
        Inl e \<Rightarrow> Inl e
      | Inr backends \<Rightarrow> py_iter backends)"

fun check_backends_loop ::
  "http_client option \<Rightarrow> coin list \<Rightarrow> bool \<times> event list \<Rightarrow> event list \<times> (error + bool)" where
  "check_backends_loop requests [] (check_passed, out) = (out, Inr check_passed)"
| "check_backends_loop requests (c # rest) (check_passed, out) =
     (let genesis_block = coin_get c ''hash_genesis_block'' in
      if \<not> truthy genesis_block then check_backends_loop requests rest (check_passed, out)
      else
        (case coin_backends c of
           Inl e \<Rightarrow> (out, Inl e)
         | Inr backends \<Rightarrow>
             check_backends_loop requests rest
               (backend_loop requests genesis_block backends (check_passed, out))))"

definition check_backends :: "http_client option \<Rightarrow> coin list \<Rightarrow> event list \<times> (error + bool)" where
  "check_backends requests cs = check_backends_loop requests cs (True, [])"

subsection \<open>The command check\<close>

text \<open>
  The functions and data of the module \<^verbatim>\<open>coin_info\<close> that the commands use. The support
  entries are of any type \<open>'s\<close>; only \<^verbatim>\<open>validate_support\<close> looks into them.
\<close>

record 's coin_info =
  validate_btc :: "coin \<Rightarrow> string list"
  validate_support :: "'s \<Rightarrow> string list"
  find_address_collisions :: "coin list \<Rightarrow> collisions"
  get_all :: coins_info
  get_support_data :: "(string \<times> 's) list"

text \<open>
  A command returns what it printed and how it ended: \<open>Inr\<close> for a normal return, \<open>Inl\<close>
  for the exception that left it. The exit status of the process follows: \<^verbatim>\<open>sys.exit(n)\<close>
  gives \<open>n\<close>, every other exception gives 1.
\<close>

fun exit_status :: "error + 'a \<Rightarrow> int" where
  "exit_status (Inr _) = 0"
| "exit_status (Inl (SystemExit n)) = n"
| "exit_status (Inl _) = 1"

definition check ::
  "http_client option \<Rightarrow> 's coin_info \<Rightarrow> bool \<Rightarrow> bool \<Rightarrow> event list \<times> (error + unit)" where
  "check requests ci check_missing_support backend_check =
     (if backend_check \<and> requests = None then
        ([], Inl (ClickException ''You must install requests for backend check''))
      else
        (let defs = get_all ci;
             out0 = [Print [PStr ''Checking BTC-like coins...'']];
             r1 = check_btc (validate_btc ci) (find_address_collisions ci) (coins defs);
             out1 = out0 @ snd r1 @ [Print [PStr ''Checking support data...'']];
             support_data = get_support_data ci;
             r2 = check_support (validate_support ci) defs support_data check_missing_support;
             out2 = out1 @ snd r2;
             all_checks_passed = (fst r1 \<and> fst r2)
         in if backend_check then
              (let r3 = check_backends requests (coins defs);
                   out3 = out2 @ [Print [PStr ''Checking backend responses...'']] @ fst r3
               in case snd r3 of
                    Inl e \<Rightarrow> (out3, Inl e)
                  | Inr ok3 \<Rightarrow>
                      if \<not> (all_checks_passed \<and> ok3)
                      then (out3 @ [Print [PStr ''Some checks failed.'']], Inl (SystemExit 1))
                      else (out3 @ [Print [PStr ''Everything is OK.'']], Inr ()))
            else
              if \<not> all_checks_passed
              then (out2 @ [Print [PStr ''Some checks failed.'']], Inl (SystemExit 1))
              else (out2 @ [Print [PStr ''Everything is OK.'']], Inr ())))"

section \<open>The optional imports (lines 13-39)\<close>

text \<open>
  An image of the library PIL: its mode, its size (width, height) and its pixels, four
  bands each. The names of \<^verbatim>\<open>PIL.Image\<close> that the tool calls are the fields of \<open>pil\<close>;
  each of them can raise.
\<close>

type_synonym rgba = "byte \<times> byte \<times> byte \<times> byte"

record pil_image =
  im_mode :: string
  im_size :: "nat \<times> nat"
  im_pixel :: "nat \<times> nat \<Rightarrow> rgba"

datatype resample = NEAREST | BILINEAR | BICUBIC | LANCZOS

record pil =
  Image_open :: "string \<Rightarrow> error + pil_image"
  Image_resize :: "pil_image \<Rightarrow> nat \<times> nat \<Rightarrow> resample \<Rightarrow> error + pil_image"
  Image_alpha_composite :: "pil_image \<Rightarrow> pil_image \<Rightarrow> error + pil_image"

text \<open>
  Of \<^verbatim>\<open>trezorlib.protobuf\<close> the tool uses the constant \<^verbatim>\<open>FLAG_REPEATED\<close> and
  \<^verbatim>\<open>dump_message\<close>, which reads the attributes of a message and returns the bytes written
  to the buffer. Of the class \<^verbatim>\<open>CoinDef\<close> it uses the values of the table \<^verbatim>\<open>FIELDS\<close>, in
  the order of the table (field name, field type, flags), and the attributes of a new
  message.
\<close>

type_synonym message = "string \<rightharpoonup> pyval"

record protobuf_module =
  FLAG_REPEATED :: int
  dump_message :: "message \<Rightarrow> error + byte list"

record coindef_class =
  FIELDS :: "(string \<times> string \<times> int) list"
  new_message :: message

text \<open>\<^verbatim>\<open>ed25519.SigningKey(seed).sign(msg)\<close>, for a seed and a message.\<close>

type_synonym ed25519_module = "byte list \<Rightarrow> byte list \<Rightarrow> error + byte list"

text \<open>
  The names that the module binds at import time. A name whose import failed is unbound
  (\<open>None\<close>); using it raises \<^verbatim>\<open>NameError\<close>. \<^verbatim>\<open>requests\<close> is bound to \<^verbatim>\<open>None\<close> instead.
  \<^verbatim>\<open>zlib\<close> and \<^verbatim>\<open>hashlib\<close> are part of Python; \<open>zlib_compress level wbits data\<close> is the
  whole output of a \<^verbatim>\<open>compressobj(level, wbits)\<close> fed with \<open>data\<close> and flushed.
\<close>

record modules =
  CAN_RENDER :: bool
  requests :: "http_client option"
  ed25519 :: "ed25519_module option"
  Image :: "pil option"
  protobuf :: "protobuf_module option"
  CoinDef :: "coindef_class option"
  CAN_BUILD_DEFS :: bool
  zlib_compress :: "nat \<Rightarrow> nat \<Rightarrow> byte list \<Rightarrow> byte list"
  sha256 :: "byte list \<Rightarrow> byte list"

text \<open>
  What is installed on the machine, and the import block: the third \<^verbatim>\<open>try\<close> stops at the
  first import that fails, so the names after it stay unbound.
\<close>

record installed =
  pkg_mako_munch :: bool
  pkg_requests :: "http_client option"
  pkg_ed25519 :: "ed25519_module option"
  pkg_PIL :: "pil option"
  pkg_trezorlib :: "protobuf_module option"
  pkg_coindef :: "coindef_class option"
  std_zlib_compress :: "nat \<Rightarrow> nat \<Rightarrow> byte list \<Rightarrow> byte list"
  std_sha256 :: "byte list \<Rightarrow> byte list"

definition import_modules :: "installed \<Rightarrow> modules" where
  "import_modules i =
     \<lparr>CAN_RENDER = pkg_mako_munch i,
      requests = pkg_requests i,
      ed25519 = pkg_ed25519 i,
      Image = (if pkg_ed25519 i = None then None else pkg_PIL i),
      protobuf = (if pkg_ed25519 i = None \<or> pkg_PIL i = None then None else pkg_trezorlib i),
      CoinDef = (if pkg_ed25519 i = None \<or> pkg_PIL i = None \<or> pkg_trezorlib i = None
                 then None else pkg_coindef i),
      CAN_BUILD_DEFS = (pkg_ed25519 i \<noteq> None \<and> pkg_PIL i \<noteq> None \<and> pkg_trezorlib i \<noteq> None
                        \<and> pkg_coindef i \<noteq> None),
      zlib_compress = std_zlib_compress i,
      sha256 = std_sha256 i\<rparr>"

section \<open>Coindefs generators\<close>

subsection \<open>convert_icon\<close>

definition DIM :: nat where
  "DIM = 32"

text \<open>\<^verbatim>\<open>Image.new(mode, size, color)\<close> and \<^verbatim>\<open>pix[x, y]\<close>.\<close>

definition Image_new :: "string \<Rightarrow> nat \<times> nat \<Rightarrow> rgba \<Rightarrow> pil_image" where
  "Image_new mode sz color = \<lparr>im_mode = mode, im_size = sz, im_pixel = (\<lambda>_. color)\<rparr>"

definition pixel_access :: "pil_image \<Rightarrow> nat \<Rightarrow> nat \<Rightarrow> error + rgba" where
  "pixel_access img x y =
     (if x < fst (im_size img) \<and> y < snd (im_size img) then Inr (im_pixel img (x, y))
      else Inl (IndexError ''image index out of range''))"

text \<open>Line 179, on Python's unbounded integers, and \<^verbatim>\<open>struct.pack(">H", c)\<close>.\<close>

definition rgb565 :: "byte \<Rightarrow> byte \<Rightarrow> byte \<Rightarrow> int" where
  "rgb565 r g b =
     (push_bit 8 ((uint r) AND 0xF8)) OR (push_bit 3 ((uint g) AND 0xFC))
       OR (drop_bit 3 ((uint b) AND 0xF8))"

definition struct_pack_H :: "int \<Rightarrow> error + byte list" where
  "struct_pack_H c =
     (if 0 \<le> c \<and> c < 65536 then Inr [word_of_int (c div 256), word_of_int (c mod 256)]
      else Inl (StructError ''ushort format requires 0 <= number <= 65535''))"

fun row_loop :: "pil_image \<Rightarrow> nat \<Rightarrow> nat list \<Rightarrow> byte list \<Rightarrow> error + byte list" where
  "row_loop pix y [] data = Inr data"
| "row_loop pix y (x # xs) data =
     (case pixel_access pix x y of
        Inl e \<Rightarrow> Inl e
      | Inr (r, g, b, a) \<Rightarrow>
          (case struct_pack_H (rgb565 r g b) of
             Inl e \<Rightarrow> Inl e
           | Inr packed \<Rightarrow> row_loop pix y xs (data @ packed)))"

fun pixel_loop :: "pil_image \<Rightarrow> nat list \<Rightarrow> byte list \<Rightarrow> error + byte list" where
  "pixel_loop pix [] data = Inr data"
| "pixel_loop pix (y # ys) data =
     (case row_loop pix y [0..<DIM] data of
        Inl e \<Rightarrow> Inl e
      | Inr data' \<Rightarrow> pixel_loop pix ys data')"

definition convert_icon :: "modules \<Rightarrow> pil_image \<Rightarrow> error + byte list" where
  "convert_icon g icon0 =
     (case Image g of
        None \<Rightarrow> Inl (NameError ''Image'')
      | Some pil \<Rightarrow>
          (case Image_resize pil icon0 (DIM, DIM) LANCZOS of
             Inl e \<Rightarrow> Inl e
           | Inr icon1 \<Rightarrow>
               (let bg = Image_new ''RGBA'' (im_size icon1) (0, 0, 0, 255) in
                case Image_alpha_composite pil bg icon1 of
                  Inl e \<Rightarrow> Inl e
                | Inr icon2 \<Rightarrow>
                    (case pixel_loop icon2 [0..<DIM] [] of
                       Inl e \<Rightarrow> Inl e
                     | Inr data \<Rightarrow>
                         (let zdata = zlib_compress g 9 10 data
                          in Inr (drop 2 (take (length zdata - 4) zdata)))))))"

subsection \<open>binascii and str.encode\<close>

definition hex_char :: "nat \<Rightarrow> char" where
  "hex_char n = ''0123456789abcdef'' ! n"

definition hexlify :: "byte list \<Rightarrow> string" where
  "hexlify bs = concat (map (\<lambda>b. [hex_char (unat b div 16), hex_char (unat b mod 16)]) bs)"

definition hex_val :: "char \<Rightarrow> nat option" where
  "hex_val c =
     (let n = (of_char c :: nat) in
      if 48 \<le> n \<and> n \<le> 57 then Some (n - 48)
      else if 97 \<le> n \<and> n \<le> 102 then Some (n - 87)
      else if 65 \<le> n \<and> n \<le> 70 then Some (n - 55)
      else None)"

fun unhex :: "string \<Rightarrow> error + byte list" where
  "unhex [] = Inr []"
| "unhex [c] = Inl (BinasciiError ''Odd-length string'')"
| "unhex (a # b # rest) =
     (case (hex_val a, hex_val b) of
        (Some h, Some l) \<Rightarrow>
          (case unhex rest of
             Inl e \<Rightarrow> Inl e
           | Inr bs \<Rightarrow> Inr (of_nat (16 * h + l) # bs))
      | _ \<Rightarrow> Inl (BinasciiError ''Non-hexadecimal digit found''))"

definition unhexlify :: "pyval \<Rightarrow> error + byte list" where
  "unhexlify v =
     (case v of
        PStr s \<Rightarrow>
          if list_ex (\<lambda>c. 128 \<le> (of_char c :: nat)) s
          then Inl (ValueError ''string argument should contain only ASCII characters'')
          else if odd (length s) then Inl (BinasciiError ''Odd-length string'')
          else unhex s
      | PBytes bs \<Rightarrow>
          if odd (length bs) then Inl (BinasciiError ''Odd-length string'')
          else unhex (map (\<lambda>b. char_of (unat b)) bs)
      | _ \<Rightarrow> Inl (TypeError ''argument should be bytes, buffer or ASCII string''))"

text \<open>\<^verbatim>\<open>val.encode("utf-8")\<close>: only a string has the method.\<close>

definition str_encode :: "pyval \<Rightarrow> error + byte list" where
  "str_encode v =
     (case v of
        PStr s \<Rightarrow> Inr (map (\<lambda>c. of_nat (of_char c)) s)
      | _ \<Rightarrow> Inl (AttributeError ''encode''))"

subsection \<open>coindef_from_dict, serialize_coindef and sign\<close>

text \<open>The \<^verbatim>\<open>elif\<close> branches of lines 193-196, for a value that is kept.\<close>

definition coerce_field :: "string \<Rightarrow> pyval \<Rightarrow> error + pyval" where
  "coerce_field fname val =
     (if fname = ''signed_message_header'' then
        (case str_encode val of Inl e \<Rightarrow> Inl e | Inr bs \<Rightarrow> Inr (PBytes bs))
      else if fname = ''hash_genesis_block'' then
        (case unhexlify val of Inl e \<Rightarrow> Inl e | Inr bs \<Rightarrow> Inr (PBytes bs))
      else Inr val)"

fun coindef_from_dict_loop ::
  "modules \<Rightarrow> coin \<Rightarrow> (string \<times> string \<times> int) list \<Rightarrow> message \<Rightarrow> error + message" where
  "coindef_from_dict_loop g c [] proto = Inr proto"
| "coindef_from_dict_loop g c ((fname, ftype, fflags) # rest) proto =
     (let val = coin_get c fname;
          coerced =
            (if val = PNone then
               (case protobuf g of
                  None \<Rightarrow> Inl (NameError ''protobuf'')
                | Some pb \<Rightarrow>
                    if fflags AND FLAG_REPEATED pb \<noteq> 0 then Inr (PList [])
                    else coerce_field fname val)
             else coerce_field fname val)
      in case coerced of
           Inl e \<Rightarrow> Inl e
         | Inr v \<Rightarrow> coindef_from_dict_loop g c rest (proto(fname \<mapsto> v)))"

definition coindef_from_dict :: "modules \<Rightarrow> coin \<Rightarrow> error + message" where
  "coindef_from_dict g c =
     (case CoinDef g of
        None \<Rightarrow> Inl (NameError ''CoinDef'')
      | Some cd \<Rightarrow> coindef_from_dict_loop g c (FIELDS cd) (new_message cd))"

definition serialize_coindef :: "modules \<Rightarrow> message \<Rightarrow> byte list \<Rightarrow> error + byte list" where
  "serialize_coindef g proto icon_bytes =
     (let proto' = proto(''icon'' \<mapsto> PBytes icon_bytes) in
      case protobuf g of
        None \<Rightarrow> Inl (NameError ''protobuf'')
      | Some pb \<Rightarrow> dump_message pb proto')"

definition sign :: "modules \<Rightarrow> byte list \<Rightarrow> error + byte list" where
  "sign g data =
     (let h = sha256 g data in
      case ed25519 g of
        None \<Rightarrow> Inl (NameError ''ed25519'')
      | Some signing_key \<Rightarrow> signing_key (replicate 32 0x41) h)"

section \<open>The commands coindefs and render\<close>

text \<open>
  The body of the loop of \<^verbatim>\<open>coindefs\<close> (lines 294-298) for one coin: its key and its
  definition. The arguments of \<^verbatim>\<open>serialize_coindef\<close> are evaluated from left to right.
\<close>

definition coin_definition :: "modules \<Rightarrow> coin \<Rightarrow> error + string \<times> string" where
  "coin_definition g c =
     (case Image g of
        None \<Rightarrow> Inl (NameError ''Image'')
      | Some pil \<Rightarrow>
          (case Image_open pil (icon c) of
             Inl e \<Rightarrow> Inl e
           | Inr icon0 \<Rightarrow>
               (case coindef_from_dict g c of
                  Inl e \<Rightarrow> Inl e
                | Inr proto \<Rightarrow>
                    (case convert_icon g icon0 of
                       Inl e \<Rightarrow> Inl e
                     | Inr zdata \<Rightarrow>
                         (case serialize_coindef g proto zdata of
                            Inl e \<Rightarrow> Inl e
                          | Inr ser \<Rightarrow>
                              (case sign g ser of
                                 Inl e \<Rightarrow> Inl e
                               | Inr sig \<Rightarrow> Inr (key c, hexlify (sig @ ser))))))))"

fun coindefs_loop ::
  "modules \<Rightarrow> coin list \<Rightarrow> (string \<rightharpoonup> string) \<Rightarrow> error + (string \<rightharpoonup> string)" where
  "coindefs_loop g [] defs = Inr defs"
| "coindefs_loop g (c # rest) defs =
     (case coin_definition g c of
        Inl e \<Rightarrow> Inl e
      | Inr (k, definition) \<Rightarrow> coindefs_loop g rest (defs(k \<mapsto> definition)))"

text \<open>
  The command \<^verbatim>\<open>coindefs\<close>: the dictionary that \<^verbatim>\<open>json.dump\<close> then writes to the output
  file, or the exception that ends the command before anything is written.
\<close>

definition coindefs :: "modules \<Rightarrow> 's coin_info \<Rightarrow> error + (string \<rightharpoonup> string)" where
  "coindefs g ci = coindefs_loop g (coins (get_all ci)) Map.empty"

text \<open>
  The command \<^verbatim>\<open>render\<close>: its guard (lines 319-320), then the template work of lines
  322-354, which is the argument \<open>render_templates\<close>.
\<close>

definition render ::
  "modules \<Rightarrow> (string list \<Rightarrow> event list \<times> (error + unit)) \<Rightarrow> string list
     \<Rightarrow> event list \<times> (error + unit)" where
  "render g render_templates paths =
     (if \<not> CAN_RENDER g then
        ([], Inl (ClickException
           (''Please install '' @ [CHR 0x27] @ ''mako'' @ [CHR 0x27] @ '' and ''
              @ [CHR 0x27] @ ''munch'' @ [CHR 0x27])))
      else render_templates paths)"

section \<open>Notions used in the statements\<close>

text \<open>
  A support key is an override when the registry knows it (it is a key of the full coin
  list) and it is not one of the expected keys (the bitcoin-like and misc coins): the
  third loop does not flag it and prints the note \<^verbatim>\<open>INFO: Override present\<close>.
\<close>

definition override_key :: "coins_info \<Rightarrow> string \<Rightarrow> bool" where
  "override_key defs k =
     (k \<in> key ` set (as_list defs) \<and> k \<notin> key ` set (coins defs @ misc defs))"

text \<open>What each loop prints, as a function of the list it runs over.\<close>

definition invalid_events ::
  "('s \<Rightarrow> string list) \<Rightarrow> (string \<rightharpoonup> string) \<Rightarrow> (string \<times> 's) list \<Rightarrow> event list" where
  "invalid_events vs cn xs =
     concat (map (\<lambda>(k, s). if vs s \<noteq> [] then
        [Print [PStr ''ERR:'', PStr ''invalid definition for'', PStr (coin_name cn k)],
         Print [PStr (str_join ''\<newline>'' (vs s))]] else []) xs)"

definition missing_events ::
  "(string \<rightharpoonup> string) \<Rightarrow> string list \<Rightarrow> bool \<Rightarrow> string list \<Rightarrow> event list" where
  "missing_events cn sk fm cs =
     concat (map (\<lambda>c. if c \<notin> set sk then
        [Print [PStr (if fm then ''ERR: Missing support info for''
                      else ''WARN: Missing support info for''),
                PStr (coin_name cn c)]] else []) cs)"

definition unknown_events ::
  "(string \<rightharpoonup> string) \<Rightarrow> string list \<Rightarrow> string list \<Rightarrow> string list \<Rightarrow> event list" where
  "unknown_events cn cs ex ks =
     concat (map (\<lambda>k.
        (if k \<notin> set cs
         then [Print [PStr ''ERR: Support info found for unknown coin'', PStr k]] else []) @
        (if k \<notin> set ex
         then [Print [PStr ''INFO: Override present for coin'', PStr (coin_name cn k)]]
         else [])) ks)"

text \<open>
  A printed line records a hard error when it is a line \<^verbatim>\<open>ERR: ...\<close> or the exception of a
  failed backend probe.
\<close>

fun is_hard_error :: "event \<Rightarrow> bool" where
  "is_hard_error (Print (PStr s # _)) = (take 4 s = ''ERR:'')"
| "is_hard_error (PrintExc _) = True"
| "is_hard_error _ = False"

definition btc_events :: "(coin \<Rightarrow> string list) \<Rightarrow> coin list \<Rightarrow> event list" where
  "btc_events vb cs =
     concat (map (\<lambda>c. if vb c \<noteq> [] then
        [Print [PStr ''ERR:'', PStr ''invalid definition for'', PStr (name c)],
         Print [PStr (str_join ''\<newline>'' (vb c))]] else []) cs)"

text \<open>
  The pixel buffer in the words of the specification: the pixels in row-major order (row
  \<open>y\<close> after row \<open>y - 1\<close>, column \<open>x\<close> after column \<open>x - 1\<close>), each as the two bytes
  of its 16-bit colour, high byte first.
\<close>

definition pack565 :: "rgba \<Rightarrow> byte list" where
  "pack565 p = (case p of (r, g, b, a) \<Rightarrow>
     [word_of_int (rgb565 r g b div 256), word_of_int (rgb565 r g b mod 256)])"

definition pixel_data :: "pil_image \<Rightarrow> byte list" where
  "pixel_data img =
     concat (map (\<lambda>y. concat (map (\<lambda>x. pack565 (im_pixel img (x, y))) [0..<DIM])) [0..<DIM])"

text \<open>
  The value that one pass of the loop of lines 189-197 stores for a field of the table, or
  the exception it raises.
\<close>

definition field_value :: "modules \<Rightarrow> coin \<Rightarrow> string \<times> string \<times> int \<Rightarrow> error + pyval" where
  "field_value g c fd =
     (case fd of (fname, ftype, fflags) \<Rightarrow>
        if coin_get c fname = PNone then
          (case protobuf g of
             None \<Rightarrow> Inl (NameError ''protobuf'')
           | Some pb \<Rightarrow>
               if fflags AND FLAG_REPEATED pb \<noteq> 0 then Inr (PList [])
               else coerce_field fname (coin_get c fname))
        else coerce_field fname (coin_get c fname))"

text \<open>
  The Definition Encoder: field coercion, then serialization with the icon attached, as in
  line 296.
\<close>

definition definition_encoder :: "modules \<Rightarrow> coin \<Rightarrow> byte list \<Rightarrow> error + byte list" where
  "definition_encoder g c icon_bytes =
     (case coindef_from_dict g c of
        Inl e \<Rightarrow> Inl e
      | Inr proto \<Rightarrow> serialize_coindef g proto icon_bytes)"

section \<open>Example registry and libraries\<close>

definition ex_btc :: coin where
  "ex_btc = \<lparr>key = ''bitcoin:BTC'', name = ''Bitcoin'', icon = ''btc.png'', entries = Map.empty\<rparr>"

definition ex_ltc :: coin where
  "ex_ltc = \<lparr>key = ''bitcoin:LTC'', name = ''Litecoin'', icon = ''ltc.png'', entries = Map.empty\<rparr>"

definition ex_omg :: coin where
  "ex_omg = \<lparr>key = ''erc20:eth:OMG'', name = ''OmiseGO'', icon = ''omg.png'', entries = Map.empty\<rparr>"

definition ex_defs :: coins_info where
  "ex_defs = \<lparr>coins = [ex_btc, ex_ltc], misc = [], as_list = [ex_btc, ex_ltc, ex_omg]\<rparr>"

definition ex_validate_support :: "pyval \<Rightarrow> string list" where
  "ex_validate_support s = (if s = PNone then [''Missing support data''] else [])"

definition ex_support :: "(string \<times> pyval) list" where
  "ex_support = [(''bitcoin:BTC'', PBool True), (''erc20:eth:OMG'', PBool True)]"

definition ex_support_stale :: "(string \<times> pyval) list" where
  "ex_support_stale = [(''bitcoin:BTC'', PBool True), (''bitcoin:XYZ'', PBool True)]"

definition ex_http :: http_client where
  "ex_http url = Inr (PStr ''000000000019d6689c085ae165831e934ff763ae46a2a6c172b3f1b60a8ce26f'')"

definition ex_coin_info :: "pyval coin_info" where
  "ex_coin_info =
     \<lparr>validate_btc = (\<lambda>c. if name c = [] then [''Missing name''] else []),
      validate_support = ex_validate_support,
      find_address_collisions =
        (\<lambda>cs. [(''address_type'', [(PInt 0, [''Bitcoin'', ''Litecoin''])])]),
      get_all = ex_defs,
      get_support_data = ex_support\<rparr>"

definition ex_probe_coin :: coin where
  "ex_probe_coin =
     \<lparr>key = ''bitcoin:BTC'', name = ''Bitcoin'', icon = ''btc.png'',
      entries = map_of [(''hash_genesis_block'', PStr ''00ff''),
                        (''blockbook'', PList [PStr ''https://a.example'']),
                        (''bitcore'', PList [PStr ''https://b.example''])]\<rparr>"

definition ex_nameless :: coin where
  "ex_nameless = \<lparr>key = ''bitcoin:NONAME'', name = '''', icon = ''noname.png'', entries = Map.empty\<rparr>"

definition ex_null_backends :: coin where
  "ex_null_backends =
     \<lparr>key = ''bitcoin:BTC'', name = ''Bitcoin'', icon = ''btc.png'',
      entries = map_of [(''hash_genesis_block'', PStr ''00ff''), (''blockbook'', PNone)]\<rparr>"

definition ex_http_probe :: http_client where
  "ex_http_probe url =
     (if url = ''https://a.example/api/block-index/0'' then Inr (PStr ''00ff'')
      else Inr (PStr ''dead''))"

definition ex_check_info :: "pyval coin_info" where
  "ex_check_info =
     \<lparr>validate_btc = (\<lambda>c. if name c = [] then [''Missing name''] else []),
      validate_support = ex_validate_support,
      find_address_collisions =
        (\<lambda>cs. [(''address_type'', [(PInt 0, [''Bitcoin'', ''Litecoin''])])]),
      get_all = \<lparr>coins = [ex_probe_coin, ex_ltc, ex_nameless], misc = [],
                 as_list = [ex_probe_coin, ex_ltc, ex_nameless, ex_omg]\<rparr>,
      get_support_data = [(''bitcoin:BTC'', PBool True), (''bitcoin:NONAME'', PNone),
                          (''bitcoin:XYZ'', PBool True), (''erc20:eth:OMG'', PBool True)]\<rparr>"

definition ex_malformed_info :: "pyval coin_info" where
  "ex_malformed_info =
     \<lparr>validate_btc = (\<lambda>c. if name c = [] then [''Missing name''] else []),
      validate_support = ex_validate_support,
      find_address_collisions = (\<lambda>cs. []),
      get_all = \<lparr>coins = [ex_null_backends], misc = [], as_list = [ex_null_backends]\<rparr>,
      get_support_data = [(''bitcoin:BTC'', PBool True)]\<rparr>"

text \<open>
  Small stand-ins for the libraries, on which the model can be run: a nearest-neighbour
  resize, compositing over an opaque background, a stored (uncompressed) stream with a
  2-byte header and a 4-byte trailer, and toy digest, signature and serializer.
\<close>

definition ex_icon :: pil_image where
  "ex_icon = \<lparr>im_mode = ''RGBA'', im_size = (64, 64),
              im_pixel = (\<lambda>(x, y). (of_nat (4 * x), of_nat (4 * y), 0xFF, 0xFF))\<rparr>"

definition ex_over :: "byte \<Rightarrow> byte \<Rightarrow> byte \<Rightarrow> byte" where
  "ex_over s d a = of_nat ((unat s * unat a + unat d * (255 - unat a)) div 255)"

definition ex_resize :: "pil_image \<Rightarrow> nat \<times> nat \<Rightarrow> pil_image" where
  "ex_resize img sz =
     \<lparr>im_mode = im_mode img, im_size = sz,
      im_pixel = (\<lambda>(x, y). im_pixel img (x * fst (im_size img) div fst sz,
                                          y * snd (im_size img) div snd sz))\<rparr>"

definition ex_composite :: "pil_image \<Rightarrow> pil_image \<Rightarrow> pil_image" where
  "ex_composite bg im =
     \<lparr>im_mode = ''RGBA'', im_size = im_size bg,
      im_pixel = (\<lambda>p. case (im_pixel bg p, im_pixel im p) of
          ((dr, dg, db, da), (sr, sg, sb, sa)) \<Rightarrow>
            (ex_over sr dr sa, ex_over sg dg sa, ex_over sb db sa, 0xFF))\<rparr>"

definition ex_pil :: pil where
  "ex_pil =
     \<lparr>Image_open = (\<lambda>path. if path = ''btc.png'' \<or> path = ''ltc.png'' then Inr ex_icon
                             else Inl (IOError ''No such file or directory'')),
      Image_resize = (\<lambda>img sz filter. Inr (ex_resize img sz)),
      Image_alpha_composite = (\<lambda>bg im.
         if im_mode bg = ''RGBA'' \<and> im_mode im = ''RGBA'' \<and> im_size bg = im_size im
         then Inr (ex_composite bg im) else Inl (ValueError ''images do not match''))\<rparr>"

definition ex_zlib_compress :: "nat \<Rightarrow> nat \<Rightarrow> byte list \<Rightarrow> byte list" where
  "ex_zlib_compress level wbits data = [0x28, 0xCF] @ data @ [0, 0, 0, 1]"

definition ex_sha256 :: "byte list \<Rightarrow> byte list" where
  "ex_sha256 data = replicate 31 0 @ [of_nat (length data)]"

definition ex_ed25519 :: ed25519_module where
  "ex_ed25519 seed msg = Inr (take 64 (msg @ seed))"

definition ex_protobuf :: protobuf_module where
  "ex_protobuf =
     \<lparr>FLAG_REPEATED = 1,
      dump_message = (\<lambda>m. case (m ''signed_message_header'', m ''icon'') of
          (Some (PBytes h), Some (PBytes i)) \<Rightarrow> Inr (h @ i)
        | _ \<Rightarrow> Inl (TypeError ''bytes expected''))\<rparr>"

definition ex_CoinDef :: coindef_class where
  "ex_CoinDef =
     \<lparr>FIELDS = [(''coin_name'', ''UnicodeType'', 0),
                (''signed_message_header'', ''BytesType'', 0),
                (''hash_genesis_block'', ''BytesType'', 0),
                (''bitcore'', ''UnicodeType'', 1),
                (''icon'', ''BytesType'', 0)],
      new_message = Map.empty\<rparr>"

definition ex_installed :: installed where
  "ex_installed =
     \<lparr>pkg_mako_munch = True, pkg_requests = Some ex_http, pkg_ed25519 = Some ex_ed25519,
      pkg_PIL = Some ex_pil, pkg_trezorlib = Some ex_protobuf, pkg_coindef = Some ex_CoinDef,
      std_zlib_compress = ex_zlib_compress, std_sha256 = ex_sha256\<rparr>"

definition ex_modules :: modules where
  "ex_modules = import_modules ex_installed"

definition ex_flat :: pil_image where
  "ex_flat = ex_composite (Image_new ''RGBA'' (32, 32) (0, 0, 0, 255)) (ex_resize ex_icon (32, 32))"

text \<open>Example records for the generators.\<close>

definition ex_coin :: coin where
  "ex_coin =
     \<lparr>key = ''bitcoin:BTC'', name = ''Bitcoin'', icon = ''btc.png'',
      entries = map_of [(''coin_name'', PStr ''Bitcoin''),
                        (''signed_message_header'', PStr ''Bitcoin Signed Message:''),
                        (''hash_genesis_block'', PStr ''00fF'')]\<rparr>"

definition ex_coin_extra :: coin where
  "ex_coin_extra = ex_coin\<lparr>entries := (entries ex_coin)(''maintainer'' \<mapsto> PStr ''nobody'')\<rparr>"

definition ex_coin_bare :: coin where
  "ex_coin_bare =
     \<lparr>key = ''bitcoin:LTC'', name = ''Litecoin'', icon = ''ltc.png'',
      entries = map_of [(''coin_name'', PStr ''Litecoin'')]\<rparr>"

definition ex_coin_noicon :: coin where
  "ex_coin_noicon = ex_coin\<lparr>key := ''bitcoin:XYZ'', icon := ''xyz.png''\<rparr>"

definition ex_header :: "byte list" where
  "ex_header = [66, 105, 116, 99, 111, 105, 110, 32, 83, 105, 103, 110, 101, 100, 32, 77, 101,
                115, 115, 97, 103, 101, 58]"

definition ex_ser :: "byte list" where
  "ex_ser = ex_header @ pixel_data ex_flat"

definition ex_sig :: "byte list" where
  "ex_sig = take 64 (ex_sha256 ex_ser @ replicate 32 0x41)"

definition ex_gen_info :: "pyval coin_info" where
  "ex_gen_info = ex_coin_info\<lparr>get_all := \<lparr>coins = [ex_coin], misc = [], as_list = [ex_coin]\<rparr>\<rparr>"

definition ex_abort_info :: "pyval coin_info" where
  "ex_abort_info = ex_coin_info\<lparr>get_all :=
     \<lparr>coins = [ex_coin, ex_coin_noicon, ex_coin_bare], misc = [],
      as_list = [ex_coin, ex_coin_noicon, ex_coin_bare]\<rparr>\<rparr>"

definition ex_bad_first_info :: "pyval coin_info" where
  "ex_bad_first_info = ex_coin_info\<lparr>get_all :=
     \<lparr>coins = [ex_coin_noicon, ex_coin], misc = [], as_list = [ex_coin_noicon, ex_coin]\<rparr>\<rparr>"

definition ex_installed_no_pil :: installed where
  "ex_installed_no_pil = ex_installed\<lparr>pkg_PIL := None\<rparr>"

definition ex_empty_info :: "pyval coin_info" where
  "ex_empty_info = ex_coin_info\<lparr>get_all := \<lparr>coins = [], misc = [], as_list = []\<rparr>\<rparr>"

lemmas ex_simps = ex_btc_def ex_ltc_def ex_omg_def ex_defs_def ex_validate_support_def
  ex_support_def ex_support_stale_def

section \<open>Properties of check_support\<close>

lemma support_invalid_loop_eq:
  "support_invalid_loop vs cn xs (p, out) =
     (p \<and> (\<forall>(k, s) \<in> set xs. vs s = []), out @ invalid_events vs cn xs)"
  by (induction xs arbitrary: p out) (auto simp: invalid_events_def Let_def)

lemma support_missing_loop_eq:
  "support_missing_loop cn sk fm cs (p, out) =
     (p \<and> (fm \<longrightarrow> set cs \<subseteq> set sk), out @ missing_events cn sk fm cs)"
  by (induction cs arbitrary: p out) (auto simp: missing_events_def)

lemma support_unknown_loop_eq:
  "support_unknown_loop cn cs ex ks (p, out) =
     (p \<and> set ks \<subseteq> set cs, out @ unknown_events cn cs ex ks)"
  by (induction ks arbitrary: p out) (auto simp: unknown_events_def)

lemma check_support_eq:
  "check_support vs defs sd fm =
     (let cn = coin_names_of (as_list defs) Map.empty;
          ex = remdups (map key (coins defs @ misc defs));
          sk = map fst sd in
      ((\<forall>(k, s) \<in> set sd. vs s = []) \<and> (fm \<longrightarrow> set ex \<subseteq> set sk)
         \<and> set sk \<subseteq> key ` set (as_list defs),
       invalid_events vs cn sd @ missing_events cn sk fm ex
         @ unknown_events cn (map key (as_list defs)) ex sk))"
  by (simp add: check_support_def Let_def support_invalid_loop_eq support_missing_loop_eq
        support_unknown_loop_eq)

lemma check_support_passed:
  "fst (check_support vs defs sd fm) =
     ((\<forall>(k, s) \<in> set sd. vs s = []) \<and>
      (fm \<longrightarrow> key ` set (coins defs @ misc defs) \<subseteq> fst ` set sd) \<and>
      fst ` set sd \<subseteq> key ` set (as_list defs))"
  by (auto simp: check_support_eq Let_def)

lemma check_support_without_override:
  assumes ov: "override_key defs k"
      and valid: "\<forall>s. (k, s) \<in> set sd \<longrightarrow> vs s = []"
  shows "fst (check_support vs defs sd fm) =
         fst (check_support vs defs (filter (\<lambda>e. fst e \<noteq> k) sd) fm)"
proof -
  let ?sd' = "filter (\<lambda>e. fst e \<noteq> k) sd"
  have keys: "fst ` set ?sd' = fst ` set sd - {k}"
    by force
  have a: "(\<forall>(k', s) \<in> set sd. vs s = []) = (\<forall>(k', s) \<in> set ?sd'. vs s = [])"
    using valid by auto
  have b: "(key ` set (coins defs @ misc defs) \<subseteq> fst ` set sd)
         = (key ` set (coins defs @ misc defs) \<subseteq> fst ` set sd - {k})"
    using ov unfolding override_key_def by blast
  have c: "(fst ` set sd \<subseteq> key ` set (as_list defs))
         = (fst ` set sd - {k} \<subseteq> key ` set (as_list defs))"
    using ov unfolding override_key_def by blast
  show ?thesis
    unfolding check_support_passed keys using a b c by simp
qed

text \<open>
  C8. A key of the expected coins (bitcoin-like and misc) that has no entry in the support
  data: with the flag \<^verbatim>\<open>fail_missing\<close> set, check_support prints the line
  \<^verbatim>\<open>ERR: Missing support info for\<close> for it and returns False. With the flag unset it prints
  the line \<^verbatim>\<open>WARN: Missing support info for\<close> instead, prints no
  \<^verbatim>\<open>ERR: Missing support info for\<close> line at all, and the check passes exactly when every
  support entry is structurally valid and every support key is a known coin: a missing key
  does not fail it.
\<close>

theorem check_support_missing_expected:
  assumes "k \<in> key ` set (coins defs @ misc defs)" and "k \<notin> fst ` set support_data"
  shows "(if fail_missing
          then \<not> fst (check_support vs defs support_data fail_missing) \<and>
               Print [PStr ''ERR: Missing support info for'',
                      PStr (coin_name (coin_names_of (as_list defs) Map.empty) k)]
                 \<in> set (snd (check_support vs defs support_data fail_missing))
          else Print [PStr ''WARN: Missing support info for'',
                      PStr (coin_name (coin_names_of (as_list defs) Map.empty) k)]
                 \<in> set (snd (check_support vs defs support_data fail_missing)) \<and>
               (\<forall>x. Print [PStr ''ERR: Missing support info for'', x]
                 \<notin> set (snd (check_support vs defs support_data fail_missing))) \<and>
               fst (check_support vs defs support_data fail_missing) =
                 ((\<forall>(k', s) \<in> set support_data. vs s = []) \<and>
                  fst ` set support_data \<subseteq> key ` set (as_list defs)))"
  using assms
  by (auto simp: check_support_eq Let_def missing_events_def invalid_events_def
        unknown_events_def split: if_splits)

theorem check_support_missing_expected_witness:
  "''bitcoin:LTC'' \<in> key ` set (coins ex_defs @ misc ex_defs) \<and>
   ''bitcoin:LTC'' \<notin> fst ` set ex_support \<and>
   \<not> fst (check_support ex_validate_support ex_defs ex_support True) \<and>
   Print [PStr ''ERR: Missing support info for'', PStr ''bitcoin:LTC (Litecoin)'']
     \<in> set (snd (check_support ex_validate_support ex_defs ex_support True)) \<and>
   Print [PStr ''WARN: Missing support info for'', PStr ''bitcoin:LTC (Litecoin)'']
     \<in> set (snd (check_support ex_validate_support ex_defs ex_support False)) \<and>
   fst (check_support ex_validate_support ex_defs ex_support False)"
proof -
  have h1: "''bitcoin:LTC'' \<in> key ` set (coins ex_defs @ misc ex_defs)"
    by (simp add: ex_simps)
  have h2: "''bitcoin:LTC'' \<notin> fst ` set ex_support"
    by (simp add: ex_simps)
  have n: "coin_name (coin_names_of (as_list ex_defs) Map.empty) ''bitcoin:LTC''
             = ''bitcoin:LTC (Litecoin)''"
    by (simp add: ex_simps coin_name_def)
  have v: "(\<forall>(k', s) \<in> set ex_support. ex_validate_support s = []) \<and>
           fst ` set ex_support \<subseteq> key ` set (as_list ex_defs)"
    by (simp add: ex_simps)
  show ?thesis
    using check_support_missing_expected [OF h1 h2, of True ex_validate_support]
      check_support_missing_expected [OF h1 h2, of False ex_validate_support] h1 h2 v
    unfolding n by simp
qed

text \<open>
  C6. A key of the support data that is not an expected key (not a bitcoin-like or misc
  coin): check_support prints \<^verbatim>\<open>ERR: Support info found for unknown coin\<close> for it exactly
  when the key is not an override, and in that case the check fails.
\<close>

theorem check_support_unknown_key:
  assumes "k \<in> fst ` set support_data"
      and "k \<notin> key ` set (coins defs @ misc defs)"
  shows "(Print [PStr ''ERR: Support info found for unknown coin'', PStr k]
            \<in> set (snd (check_support vs defs support_data fail_missing)))
           = (\<not> override_key defs k) \<and>
         (\<not> override_key defs k \<longrightarrow> \<not> fst (check_support vs defs support_data fail_missing))"
  using assms
  by (auto simp: check_support_eq Let_def missing_events_def invalid_events_def
        unknown_events_def override_key_def split: if_splits)

theorem check_support_unknown_key_witness:
  "''bitcoin:XYZ'' \<in> fst ` set ex_support_stale \<and>
   ''bitcoin:XYZ'' \<notin> key ` set (coins ex_defs @ misc ex_defs) \<and>
   \<not> override_key ex_defs ''bitcoin:XYZ'' \<and>
   Print [PStr ''ERR: Support info found for unknown coin'', PStr ''bitcoin:XYZ'']
     \<in> set (snd (check_support ex_validate_support ex_defs ex_support_stale False)) \<and>
   \<not> fst (check_support ex_validate_support ex_defs ex_support_stale False)"
proof -
  have h1: "''bitcoin:XYZ'' \<in> fst ` set ex_support_stale"
    by (simp add: ex_simps)
  have h2: "''bitcoin:XYZ'' \<notin> key ` set (coins ex_defs @ misc ex_defs)"
    by (simp add: ex_simps)
  have h3: "\<not> override_key ex_defs ''bitcoin:XYZ''"
    by (simp add: override_key_def ex_simps)
  show ?thesis
    using check_support_unknown_key [OF h1 h2, of ex_validate_support False] h1 h2 h3
    by simp
qed

text \<open>
  C7. A key of the support data that is an override: check_support prints the note
  \<^verbatim>\<open>INFO: Override present for coin\<close> for it and no
  \<^verbatim>\<open>ERR: Support info found for unknown coin\<close> line; and when the entries stored under the
  key are structurally valid, the result of the check is the result on the support data
  without the key.
\<close>

theorem check_support_override_key:
  assumes "k \<in> fst ` set support_data" and "override_key defs k"
  shows "Print [PStr ''INFO: Override present for coin'',
                PStr (coin_name (coin_names_of (as_list defs) Map.empty) k)]
           \<in> set (snd (check_support vs defs support_data fail_missing)) \<and>
         Print [PStr ''ERR: Support info found for unknown coin'', PStr k]
           \<notin> set (snd (check_support vs defs support_data fail_missing)) \<and>
         ((\<forall>s. (k, s) \<in> set support_data \<longrightarrow> vs s = []) \<longrightarrow>
            fst (check_support vs defs support_data fail_missing) =
            fst (check_support vs defs (filter (\<lambda>e. fst e \<noteq> k) support_data) fail_missing))"
proof -
  have "Print [PStr ''INFO: Override present for coin'',
                PStr (coin_name (coin_names_of (as_list defs) Map.empty) k)]
           \<in> set (snd (check_support vs defs support_data fail_missing))"
    using assms
    by (auto simp: check_support_eq Let_def unknown_events_def override_key_def)
  moreover have "Print [PStr ''ERR: Support info found for unknown coin'', PStr k]
           \<notin> set (snd (check_support vs defs support_data fail_missing))"
    using assms
    by (auto simp: check_support_eq Let_def missing_events_def invalid_events_def
        unknown_events_def override_key_def split: if_splits)
  ultimately show ?thesis
    using check_support_without_override [OF assms(2)] by blast
qed

theorem check_support_override_key_witness:
  "''erc20:eth:OMG'' \<in> fst ` set ex_support \<and>
   override_key ex_defs ''erc20:eth:OMG'' \<and>
   Print [PStr ''INFO: Override present for coin'', PStr ''erc20:eth:OMG (OmiseGO)'']
     \<in> set (snd (check_support ex_validate_support ex_defs ex_support False)) \<and>
   Print [PStr ''ERR: Support info found for unknown coin'', PStr ''erc20:eth:OMG'']
     \<notin> set (snd (check_support ex_validate_support ex_defs ex_support False)) \<and>
   fst (check_support ex_validate_support ex_defs ex_support False) \<and>
   fst (check_support ex_validate_support ex_defs ex_support False) =
   fst (check_support ex_validate_support ex_defs
          (filter (\<lambda>e. fst e \<noteq> ''erc20:eth:OMG'') ex_support) False)"
proof -
  have h1: "''erc20:eth:OMG'' \<in> fst ` set ex_support"
    by (simp add: ex_simps)
  have h2: "override_key ex_defs ''erc20:eth:OMG''"
    by (simp add: override_key_def ex_simps)
  have n: "coin_name (coin_names_of (as_list ex_defs) Map.empty) ''erc20:eth:OMG''
             = ''erc20:eth:OMG (OmiseGO)''"
    by (simp add: ex_simps coin_name_def)
  have v: "\<forall>s. (''erc20:eth:OMG'', s) \<in> set ex_support \<longrightarrow> ex_validate_support s = []"
    by (simp add: ex_simps)
  have p: "fst (check_support ex_validate_support ex_defs ex_support False)"
    by (simp add: check_support_passed ex_simps)
  show ?thesis
    using check_support_override_key [OF h1 h2, of ex_validate_support False] h1 h2 v p
    unfolding n by simp
qed

section \<open>Properties of the command check\<close>

lemma check_btc_loop_eq:
  "check_btc_loop vb cs (p, out) = (p \<and> (\<forall>c \<in> set cs. vb c = []), out @ btc_events vb cs)"
  by (induction cs arbitrary: p out) (auto simp: btc_events_def Let_def)

lemma check_btc_eq:
  "check_btc vb fc cs = ((\<forall>c \<in> set cs. vb c = []), btc_events vb cs @ collision_lines (fc cs))"
  by (simp add: check_btc_def check_btc_loop_eq)

lemma dups_lines_soft: "ev \<in> set (dups_lines ds) \<Longrightarrow> \<not> is_hard_error ev"
  by (induction ds rule: dups_lines.induct) auto

lemma collision_lines_soft: "ev \<in> set (collision_lines cl) \<Longrightarrow> \<not> is_hard_error ev"
  by (induction cl rule: collision_lines.induct) (auto dest: dups_lines_soft split: if_splits)

lemma btc_events_simps:
  "btc_events vb [] = []"
  "btc_events vb (c # cs) = (if vb c \<noteq> [] then
        [Print [PStr ''ERR:'', PStr ''invalid definition for'', PStr (name c)],
         Print [PStr (str_join ''\<newline>'' (vb c))]] else []) @ btc_events vb cs"
  by (simp_all add: btc_events_def)

lemma invalid_events_simps:
  "invalid_events vs cn [] = []"
  "invalid_events vs cn ((k, s) # sd) = (if vs s \<noteq> [] then
        [Print [PStr ''ERR:'', PStr ''invalid definition for'', PStr (coin_name cn k)],
         Print [PStr (str_join ''\<newline>'' (vs s))]] else []) @ invalid_events vs cn sd"
  by (simp_all add: invalid_events_def)

lemma missing_events_simps:
  "missing_events cn sk fm [] = []"
  "missing_events cn sk fm (c # cs) = (if c \<notin> set sk then
        [Print [PStr (if fm then ''ERR: Missing support info for''
                      else ''WARN: Missing support info for''),
                PStr (coin_name cn c)]] else []) @ missing_events cn sk fm cs"
  by (simp_all add: missing_events_def)

lemma unknown_events_simps:
  "unknown_events cn cs ex [] = []"
  "unknown_events cn cs ex (k # ks) =
        (if k \<notin> set cs
         then [Print [PStr ''ERR: Support info found for unknown coin'', PStr k]] else []) @
        (if k \<notin> set ex
         then [Print [PStr ''INFO: Override present for coin'', PStr (coin_name cn k)]]
         else []) @ unknown_events cn cs ex ks"
  by (simp_all add: unknown_events_def)

lemma btc_events_hard:
  "list_ex is_hard_error (btc_events vb cs) = (\<not> (\<forall>c \<in> set cs. vb c = []))"
  by (induction cs) (simp_all add: btc_events_simps)

lemma collision_lines_no_hard: "\<not> list_ex is_hard_error (collision_lines cl)"
  using collision_lines_soft by (auto simp: list_ex_iff)

lemma check_btc_hard:
  "list_ex is_hard_error (snd (check_btc vb fc cs)) = (\<not> fst (check_btc vb fc cs))"
  by (simp add: check_btc_eq btc_events_hard collision_lines_no_hard)

lemma invalid_events_hard:
  "list_ex is_hard_error (invalid_events vs cn sd) = (\<not> (\<forall>(k, s) \<in> set sd. vs s = []))"
  by (induction sd) (auto simp: invalid_events_simps)

lemma missing_events_hard:
  "list_ex is_hard_error (missing_events cn sk fm cs) = (\<not> (fm \<longrightarrow> set cs \<subseteq> set sk))"
  by (induction cs) (auto simp: missing_events_simps)

lemma unknown_events_hard:
  "list_ex is_hard_error (unknown_events cn cs ex ks) = (\<not> set ks \<subseteq> set cs)"
  by (induction ks) (auto simp: unknown_events_simps)

lemma check_support_hard:
  "list_ex is_hard_error (snd (check_support vs defs sd fm))
     = (\<not> fst (check_support vs defs sd fm))"
  by (auto simp: check_support_eq Let_def invalid_events_hard missing_events_hard
        unknown_events_hard)

lemma backend_loop_hard:
  "\<exists>evs. backend_loop r g bs (p, out) = (p \<and> \<not> list_ex is_hard_error evs, out @ evs)"
proof (induction bs arbitrary: p out)
  case Nil
  have "backend_loop r g [] (p, out) = (p \<and> \<not> list_ex is_hard_error [], out @ [])" by simp
  then show ?case by blast
next
  case (Cons b bs)
  let ?o1 = "out @ [PrintNoEnd [PStr ''checking'', b, PStr ''... '']]"
  show ?case
  proof (cases "probe_backend r g b")
    case (Inl e)
    obtain evs where
      "backend_loop r g bs (False, ?o1 @ [PrintExc e]) = (False \<and> \<not> list_ex is_hard_error evs, (?o1 @ [PrintExc e]) @ evs)"
      using Cons.IH by blast
    then have "backend_loop r g (b # bs) (p, out) =
        (p \<and> \<not> list_ex is_hard_error ([PrintNoEnd [PStr ''checking'', b, PStr ''... ''], PrintExc e] @ evs),
         out @ ([PrintNoEnd [PStr ''checking'', b, PStr ''... ''], PrintExc e] @ evs))"
      using Inl by simp
    then show ?thesis by blast
  next
    case (Inr u)
    obtain evs where
      "backend_loop r g bs (p, ?o1 @ [Print [PStr ''OK'']]) = (p \<and> \<not> list_ex is_hard_error evs, (?o1 @ [Print [PStr ''OK'']]) @ evs)"
      using Cons.IH by blast
    then have "backend_loop r g (b # bs) (p, out) =
        (p \<and> \<not> list_ex is_hard_error ([PrintNoEnd [PStr ''checking'', b, PStr ''... ''], Print [PStr ''OK'']] @ evs),
         out @ ([PrintNoEnd [PStr ''checking'', b, PStr ''... ''], Print [PStr ''OK'']] @ evs))"
      using Inr by simp
    then show ?thesis by blast
  qed
qed

lemma check_backends_loop_hard:
  "\<exists>evs. fst (check_backends_loop r cs (p, out)) = out @ evs \<and>
     (\<forall>ok. snd (check_backends_loop r cs (p, out)) = Inr ok \<longrightarrow>
        ok = (p \<and> \<not> list_ex is_hard_error evs))"
proof (induction cs arbitrary: p out)
  case Nil
  have "fst (check_backends_loop r [] (p, out)) = out @ [] \<and>
     (\<forall>ok. snd (check_backends_loop r [] (p, out)) = Inr ok \<longrightarrow>
        ok = (p \<and> \<not> list_ex is_hard_error []))" by auto
  then show ?case by blast
next
  case (Cons c cs)
  show ?case
  proof (cases "truthy (coin_get c ''hash_genesis_block'')")
    case False
    then show ?thesis using Cons.IH [of p out] by simp
  next
    case True
    show ?thesis
    proof (cases "coin_backends c")
      case (Inl e)
      have "fst (check_backends_loop r (c # cs) (p, out)) = out @ [] \<and>
        (\<forall>ok. snd (check_backends_loop r (c # cs) (p, out)) = Inr ok \<longrightarrow>
          ok = (p \<and> \<not> list_ex is_hard_error []))"
        using True Inl by simp
      then show ?thesis by blast
    next
      case (Inr bs)
      obtain e1 where e1: "backend_loop r (coin_get c ''hash_genesis_block'') bs (p, out)
          = (p \<and> \<not> list_ex is_hard_error e1, out @ e1)"
        using backend_loop_hard by blast
      obtain e2 where e2: "fst (check_backends_loop r cs (p \<and> \<not> list_ex is_hard_error e1, out @ e1)) = (out @ e1) @ e2 \<and>
        (\<forall>ok. snd (check_backends_loop r cs (p \<and> \<not> list_ex is_hard_error e1, out @ e1)) = Inr ok \<longrightarrow>
          ok = ((p \<and> \<not> list_ex is_hard_error e1) \<and> \<not> list_ex is_hard_error e2))"
        using Cons.IH by blast
      have "fst (check_backends_loop r (c # cs) (p, out)) = out @ (e1 @ e2) \<and>
        (\<forall>ok. snd (check_backends_loop r (c # cs) (p, out)) = Inr ok \<longrightarrow>
          ok = (p \<and> \<not> list_ex is_hard_error (e1 @ e2)))"
        using True Inr e1 e2 by auto
      then show ?thesis by blast
    qed
  qed
qed

lemma check_backends_hard:
  "snd (check_backends r cs) = Inr ok \<Longrightarrow>
     ok = (\<not> list_ex is_hard_error (fst (check_backends r cs)))"
  using check_backends_loop_hard [of r cs True "[]"] by (auto simp: check_backends_def)

lemma check_backends_loop_returns:
  "\<forall>c \<in> set cs. truthy (coin_get c ''hash_genesis_block'') \<longrightarrow> (\<exists>bs. coin_backends c = Inr bs)
   \<Longrightarrow> \<exists>ok. snd (check_backends_loop r cs (p, out)) = Inr ok"
proof (induction cs arbitrary: p out)
  case Nil
  then show ?case by simp
next
  case (Cons c cs)
  have rest: "\<exists>ok. snd (check_backends_loop r cs st) = Inr ok" for st
    using Cons.IH [of "fst st" "snd st"] Cons.prems by simp
  show ?case
  proof (cases "truthy (coin_get c ''hash_genesis_block'')")
    case False
    then show ?thesis using rest by simp
  next
    case True
    then obtain bs where "coin_backends c = Inr bs"
      using Cons.prems by auto
    then show ?thesis using True rest by simp
  qed
qed

lemma check_backends_returns:
  "\<forall>c \<in> set cs. truthy (coin_get c ''hash_genesis_block'') \<longrightarrow> (\<exists>bs. coin_backends c = Inr bs)
   \<Longrightarrow> \<exists>ok. snd (check_backends r cs) = Inr ok"
  unfolding check_backends_def by (rule check_backends_loop_returns)

lemma btc_events_member:
  "c \<in> set cs \<Longrightarrow> vb c \<noteq> [] \<Longrightarrow>
     Print [PStr ''ERR:'', PStr ''invalid definition for'', PStr (name c)] \<in> set (btc_events vb cs)"
  by (induction cs) (auto simp: btc_events_simps)

lemma invalid_events_member:
  "(k, s) \<in> set sd \<Longrightarrow> vs s \<noteq> [] \<Longrightarrow>
     Print [PStr ''ERR:'', PStr ''invalid definition for'', PStr (coin_name cn k)]
       \<in> set (invalid_events vs cn sd)"
  by (induction sd) (auto simp: invalid_events_simps)

lemma check_refuses:
  "backend_check \<Longrightarrow> rq = None \<Longrightarrow>
     check rq ci cms backend_check
       = ([], Inl (ClickException ''You must install requests for backend check''))"
  by (simp add: check_def)

lemma check_output_includes:
  assumes "\<not> (backend_check \<and> rq = None)"
  shows "set (snd (check_btc (validate_btc ci) (find_address_collisions ci) (coins (get_all ci))))
         \<union> set (snd (check_support (validate_support ci) (get_all ci) (get_support_data ci) cms))
         \<subseteq> set (fst (check rq ci cms backend_check))"
  using assms by (auto simp: check_def Let_def split: sum.splits)

lemma check_exit_collisions:
  "snd (check rq (ci\<lparr>find_address_collisions := fc\<rparr>) cms backend_check)
         = snd (check rq ci cms backend_check)"
  by (auto simp: check_def Let_def check_btc_eq split: sum.splits)

lemma check_exit_hard:
  assumes "\<not> (backend_check \<and> rq = None)"
      and "backend_check \<longrightarrow> snd (check_backends rq (coins (get_all ci))) = Inr ok3"
  shows "(exit_status (snd (check rq ci cms backend_check)) \<noteq> 0)
           = list_ex is_hard_error (fst (check rq ci cms backend_check))"
    and "(exit_status (snd (check rq ci cms backend_check)) \<noteq> 0)
           = (\<not> fst (check_btc (validate_btc ci) (find_address_collisions ci) (coins (get_all ci)))
              \<or> \<not> fst (check_support (validate_support ci) (get_all ci) (get_support_data ci) cms)
              \<or> (backend_check \<and> \<not> ok3))"
proof -
  show "(exit_status (snd (check rq ci cms backend_check)) \<noteq> 0)
           = list_ex is_hard_error (fst (check rq ci cms backend_check))"
  proof (cases backend_check)
    case False
    then show ?thesis
      using check_btc_hard [of "validate_btc ci" "find_address_collisions ci" "coins (get_all ci)"]
        check_support_hard [of "validate_support ci" "get_all ci" "get_support_data ci" cms]
      by (auto simp: check_def Let_def)
  next
    case True
    then have ok3: "snd (check_backends rq (coins (get_all ci))) = Inr ok3"
      using assms by simp
    show ?thesis
      using check_btc_hard [of "validate_btc ci" "find_address_collisions ci" "coins (get_all ci)"]
        check_support_hard [of "validate_support ci" "get_all ci" "get_support_data ci" cms]
        check_backends_hard [OF ok3] True assms(1) ok3
      by (auto simp: check_def Let_def)
  qed
  show "(exit_status (snd (check rq ci cms backend_check)) \<noteq> 0)
           = (\<not> fst (check_btc (validate_btc ci) (find_address_collisions ci) (coins (get_all ci)))
              \<or> \<not> fst (check_support (validate_support ci) (get_all ci) (get_support_data ci) cms)
              \<or> (backend_check \<and> \<not> ok3))"
    using assms by (cases backend_check) (auto simp: check_def Let_def)
qed

lemma missing_events_member:
  "c \<in> set cs \<Longrightarrow> c \<notin> set sk \<Longrightarrow>
     Print [PStr (if fm then ''ERR: Missing support info for''
                  else ''WARN: Missing support info for''), PStr (coin_name cn c)]
       \<in> set (missing_events cn sk fm cs)"
  by (induction cs) (auto simp: missing_events_simps)

lemma unknown_events_member:
  "k \<in> set ks \<Longrightarrow> k \<notin> set cs \<Longrightarrow>
     Print [PStr ''ERR: Support info found for unknown coin'', PStr k]
       \<in> set (unknown_events cn cs ex ks)"
  by (induction ks) (auto simp: unknown_events_simps)

lemma override_events_member:
  "k \<in> set ks \<Longrightarrow> k \<notin> set ex \<Longrightarrow>
     Print [PStr ''INFO: Override present for coin'', PStr (coin_name cn k)]
       \<in> set (unknown_events cn cs ex ks)"
  by (induction ks) (auto simp: unknown_events_simps)

text \<open>
  C5, as the code has it. With the backend check requested and the HTTP client missing,
  the command refuses at once: nothing is validated and the exit status is 1. Otherwise
  every finding is printed, whatever else failed: an \<^verbatim>\<open>ERR\<close> line for every bitcoin-like
  coin and every support entry with validation errors, an \<^verbatim>\<open>ERR\<close> or \<^verbatim>\<open>WARN\<close> line
  (by the flag) for every expected key without support info, an \<^verbatim>\<open>ERR\<close> line for every
  support key of no known coin, an \<^verbatim>\<open>INFO\<close> line for every support key outside the expected
  keys, and every line of the collision report, none of which records a hard error. When
  the backend check is off, or the backend lists of the coins are well-formed, the exit
  status is non-zero exactly when a printed line records a hard error, which is exactly
  when a coin or a support entry is invalid, an expected key is missing under the strict
  flag, a support key is unknown, or a backend probe failed. The exit status is the same
  for every collision report.
\<close>

theorem check_exit_status:
  "(backend_check \<and> rq = None \<longrightarrow>
      check rq ci cms backend_check
        = ([], Inl (ClickException ''You must install requests for backend check''))) \<and>
   (\<not> (backend_check \<and> rq = None) \<longrightarrow>
      (\<forall>c \<in> set (coins (get_all ci)). validate_btc ci c \<noteq> [] \<longrightarrow>
         Print [PStr ''ERR:'', PStr ''invalid definition for'', PStr (name c)]
           \<in> set (fst (check rq ci cms backend_check))) \<and>
      (\<forall>(k, s) \<in> set (get_support_data ci). validate_support ci s \<noteq> [] \<longrightarrow>
         Print [PStr ''ERR:'', PStr ''invalid definition for'',
                PStr (coin_name (coin_names_of (as_list (get_all ci)) Map.empty) k)]
           \<in> set (fst (check rq ci cms backend_check))) \<and>
      (\<forall>k \<in> key ` set (coins (get_all ci) @ misc (get_all ci)).
         k \<notin> fst ` set (get_support_data ci) \<longrightarrow>
         Print [PStr (if cms then ''ERR: Missing support info for''
                      else ''WARN: Missing support info for''),
                PStr (coin_name (coin_names_of (as_list (get_all ci)) Map.empty) k)]
           \<in> set (fst (check rq ci cms backend_check))) \<and>
      (\<forall>k \<in> fst ` set (get_support_data ci). k \<notin> key ` set (as_list (get_all ci)) \<longrightarrow>
         Print [PStr ''ERR: Support info found for unknown coin'', PStr k]
           \<in> set (fst (check rq ci cms backend_check))) \<and>
      (\<forall>k \<in> fst ` set (get_support_data ci).
         k \<notin> key ` set (coins (get_all ci) @ misc (get_all ci)) \<longrightarrow>
         Print [PStr ''INFO: Override present for coin'',
                PStr (coin_name (coin_names_of (as_list (get_all ci)) Map.empty) k)]
           \<in> set (fst (check rq ci cms backend_check))) \<and>
      (\<forall>ev \<in> set (collision_lines (find_address_collisions ci (coins (get_all ci)))).
         ev \<in> set (fst (check rq ci cms backend_check)) \<and> \<not> is_hard_error ev) \<and>
      ((backend_check \<longrightarrow>
          (\<forall>c \<in> set (coins (get_all ci)). truthy (coin_get c ''hash_genesis_block'')
              \<longrightarrow> (\<exists>bs. coin_backends c = Inr bs))) \<longrightarrow>
         ((exit_status (snd (check rq ci cms backend_check)) \<noteq> 0)
            = (\<exists>ev \<in> set (fst (check rq ci cms backend_check)). is_hard_error ev)) \<and>
         ((exit_status (snd (check rq ci cms backend_check)) \<noteq> 0)
            = ((\<exists>c \<in> set (coins (get_all ci)). validate_btc ci c \<noteq> []) \<or>
               (\<exists>(k, s) \<in> set (get_support_data ci). validate_support ci s \<noteq> []) \<or>
               (cms \<and> (\<exists>k \<in> key ` set (coins (get_all ci) @ misc (get_all ci)).
                          k \<notin> fst ` set (get_support_data ci))) \<or>
               (\<exists>k \<in> fst ` set (get_support_data ci). k \<notin> key ` set (as_list (get_all ci))) \<or>
               (backend_check \<and> snd (check_backends rq (coins (get_all ci))) = Inr False))))) \<and>
   (\<forall>fc. exit_status (snd (check rq (ci\<lparr>find_address_collisions := fc\<rparr>) cms backend_check))
      = exit_status (snd (check rq ci cms backend_check)))"
proof -
  let ?out = "fst (check rq ci cms backend_check)"
  let ?cn = "coin_names_of (as_list (get_all ci)) Map.empty"
  have guard: "check rq ci cms backend_check
        = ([], Inl (ClickException ''You must install requests for backend check''))"
    if "backend_check \<and> rq = None"
    using that by (simp add: check_refuses)
  have coll: "exit_status (snd (check rq (ci\<lparr>find_address_collisions := fc\<rparr>) cms backend_check))
      = exit_status (snd (check rq ci cms backend_check))" for fc
    by (simp add: check_exit_collisions)
  have run: "(\<forall>c \<in> set (coins (get_all ci)). validate_btc ci c \<noteq> [] \<longrightarrow>
         Print [PStr ''ERR:'', PStr ''invalid definition for'', PStr (name c)] \<in> set ?out) \<and>
      (\<forall>(k, s) \<in> set (get_support_data ci). validate_support ci s \<noteq> [] \<longrightarrow>
         Print [PStr ''ERR:'', PStr ''invalid definition for'', PStr (coin_name ?cn k)]
           \<in> set ?out) \<and>
      (\<forall>k \<in> key ` set (coins (get_all ci) @ misc (get_all ci)).
         k \<notin> fst ` set (get_support_data ci) \<longrightarrow>
         Print [PStr (if cms then ''ERR: Missing support info for''
                      else ''WARN: Missing support info for''), PStr (coin_name ?cn k)]
           \<in> set ?out) \<and>
      (\<forall>k \<in> fst ` set (get_support_data ci). k \<notin> key ` set (as_list (get_all ci)) \<longrightarrow>
         Print [PStr ''ERR: Support info found for unknown coin'', PStr k] \<in> set ?out) \<and>
      (\<forall>k \<in> fst ` set (get_support_data ci).
         k \<notin> key ` set (coins (get_all ci) @ misc (get_all ci)) \<longrightarrow>
         Print [PStr ''INFO: Override present for coin'', PStr (coin_name ?cn k)] \<in> set ?out) \<and>
      (\<forall>ev \<in> set (collision_lines (find_address_collisions ci (coins (get_all ci)))).
         ev \<in> set ?out \<and> \<not> is_hard_error ev) \<and>
      ((backend_check \<longrightarrow>
          (\<forall>c \<in> set (coins (get_all ci)). truthy (coin_get c ''hash_genesis_block'')
              \<longrightarrow> (\<exists>bs. coin_backends c = Inr bs))) \<longrightarrow>
         ((exit_status (snd (check rq ci cms backend_check)) \<noteq> 0)
            = (\<exists>ev \<in> set ?out. is_hard_error ev)) \<and>
         ((exit_status (snd (check rq ci cms backend_check)) \<noteq> 0)
            = ((\<exists>c \<in> set (coins (get_all ci)). validate_btc ci c \<noteq> []) \<or>
               (\<exists>(k, s) \<in> set (get_support_data ci). validate_support ci s \<noteq> []) \<or>
               (cms \<and> (\<exists>k \<in> key ` set (coins (get_all ci) @ misc (get_all ci)).
                          k \<notin> fst ` set (get_support_data ci))) \<or>
               (\<exists>k \<in> fst ` set (get_support_data ci). k \<notin> key ` set (as_list (get_all ci))) \<or>
               (backend_check \<and> snd (check_backends rq (coins (get_all ci))) = Inr False))))"
    if ng: "\<not> (backend_check \<and> rq = None)"
  proof -
    note inc = check_output_includes [OF ng, of ci cms]
    let ?ex = "remdups (map key (coins (get_all ci) @ misc (get_all ci)))"
    let ?sk = "map fst (get_support_data ci)"
    let ?cs = "map key (as_list (get_all ci))"
    have inc_btc: "set (btc_events (validate_btc ci) (coins (get_all ci))) \<subseteq> set ?out"
      using inc by (simp add: check_btc_eq)
    have inc_sup: "set (invalid_events (validate_support ci) ?cn (get_support_data ci)) \<subseteq> set ?out"
      "set (missing_events ?cn ?sk cms ?ex) \<subseteq> set ?out"
      "set (unknown_events ?cn ?cs ?ex ?sk) \<subseteq> set ?out"
      using inc by (simp_all add: check_support_eq Let_def)
    have b: "Print [PStr ''ERR:'', PStr ''invalid definition for'', PStr (name c)] \<in> set ?out"
      if "c \<in> set (coins (get_all ci))" "validate_btc ci c \<noteq> []" for c
      using btc_events_member [of c "coins (get_all ci)" "validate_btc ci"] that inc_btc
      by blast
    have c: "Print [PStr ''ERR:'', PStr ''invalid definition for'', PStr (coin_name ?cn k)]
              \<in> set ?out"
      if "(k, s) \<in> set (get_support_data ci)" "validate_support ci s \<noteq> []" for k s
      using invalid_events_member [of k s "get_support_data ci" "validate_support ci" ?cn]
        that inc_sup(1)
      by blast
    have m: "Print [PStr (if cms then ''ERR: Missing support info for''
                      else ''WARN: Missing support info for''), PStr (coin_name ?cn k)]
           \<in> set ?out"
      if "k \<in> key ` set (coins (get_all ci) @ misc (get_all ci))"
         "k \<notin> fst ` set (get_support_data ci)" for k
    proof -
      have "k \<in> set ?ex" "k \<notin> set ?sk" using that by auto
      then show ?thesis
        using missing_events_member [of k ?ex ?sk cms ?cn] inc_sup(2) by blast
    qed
    have u: "Print [PStr ''ERR: Support info found for unknown coin'', PStr k] \<in> set ?out"
      if "k \<in> fst ` set (get_support_data ci)" "k \<notin> key ` set (as_list (get_all ci))" for k
    proof -
      have "k \<in> set ?sk" "k \<notin> set ?cs" using that by auto
      then show ?thesis
        using unknown_events_member [of k ?sk ?cs ?cn ?ex] inc_sup(3) by blast
    qed
    have o: "Print [PStr ''INFO: Override present for coin'', PStr (coin_name ?cn k)] \<in> set ?out"
      if "k \<in> fst ` set (get_support_data ci)"
         "k \<notin> key ` set (coins (get_all ci) @ misc (get_all ci))" for k
    proof -
      have "k \<in> set ?sk" "k \<notin> set ?ex" using that by auto
      then show ?thesis
        using override_events_member [of k ?sk ?ex ?cn ?cs] inc_sup(3) by blast
    qed
    have d: "ev \<in> set ?out \<and> \<not> is_hard_error ev"
      if "ev \<in> set (collision_lines (find_address_collisions ci (coins (get_all ci))))" for ev
      using that inc collision_lines_soft [of ev] by (auto simp: check_btc_eq)
    have e: "((exit_status (snd (check rq ci cms backend_check)) \<noteq> 0)
            = (\<exists>ev \<in> set ?out. is_hard_error ev)) \<and>
         ((exit_status (snd (check rq ci cms backend_check)) \<noteq> 0)
            = ((\<exists>c \<in> set (coins (get_all ci)). validate_btc ci c \<noteq> []) \<or>
               (\<exists>(k, s) \<in> set (get_support_data ci). validate_support ci s \<noteq> []) \<or>
               (cms \<and> (\<exists>k \<in> key ` set (coins (get_all ci) @ misc (get_all ci)).
                          k \<notin> fst ` set (get_support_data ci))) \<or>
               (\<exists>k \<in> fst ` set (get_support_data ci). k \<notin> key ` set (as_list (get_all ci))) \<or>
               (backend_check \<and> snd (check_backends rq (coins (get_all ci))) = Inr False)))"
      if wf: "backend_check \<longrightarrow>
          (\<forall>c \<in> set (coins (get_all ci)). truthy (coin_get c ''hash_genesis_block'')
              \<longrightarrow> (\<exists>bs. coin_backends c = Inr bs))"
    proof -
      obtain ok3 where ok3: "backend_check \<longrightarrow> snd (check_backends rq (coins (get_all ci))) = Inr ok3"
        using wf check_backends_returns [of "coins (get_all ci)" rq] by (cases backend_check) auto
      have sem: "(\<not> fst (check_btc (validate_btc ci) (find_address_collisions ci) (coins (get_all ci)))
              \<or> \<not> fst (check_support (validate_support ci) (get_all ci) (get_support_data ci) cms)
              \<or> (backend_check \<and> \<not> ok3))
          = ((\<exists>c \<in> set (coins (get_all ci)). validate_btc ci c \<noteq> []) \<or>
               (\<exists>(k, s) \<in> set (get_support_data ci). validate_support ci s \<noteq> []) \<or>
               (cms \<and> (\<exists>k \<in> key ` set (coins (get_all ci) @ misc (get_all ci)).
                          k \<notin> fst ` set (get_support_data ci))) \<or>
               (\<exists>k \<in> fst ` set (get_support_data ci). k \<notin> key ` set (as_list (get_all ci))) \<or>
               (backend_check \<and> snd (check_backends rq (coins (get_all ci))) = Inr False))"
        using ok3 by (auto simp: check_btc_eq check_support_passed)
      show ?thesis
        using check_exit_hard [OF ng ok3, of cms] sem by (simp add: list_ex_iff)
    qed
    have B: "\<forall>c \<in> set (coins (get_all ci)). validate_btc ci c \<noteq> [] \<longrightarrow>
         Print [PStr ''ERR:'', PStr ''invalid definition for'', PStr (name c)] \<in> set ?out"
      using b by blast
    have C: "\<forall>(k, s) \<in> set (get_support_data ci). validate_support ci s \<noteq> [] \<longrightarrow>
         Print [PStr ''ERR:'', PStr ''invalid definition for'', PStr (coin_name ?cn k)]
           \<in> set ?out"
      using c by blast
    have M: "\<forall>k \<in> key ` set (coins (get_all ci) @ misc (get_all ci)).
         k \<notin> fst ` set (get_support_data ci) \<longrightarrow>
         Print [PStr (if cms then ''ERR: Missing support info for''
                      else ''WARN: Missing support info for''), PStr (coin_name ?cn k)]
           \<in> set ?out"
      using m by blast
    have U: "\<forall>k \<in> fst ` set (get_support_data ci). k \<notin> key ` set (as_list (get_all ci)) \<longrightarrow>
         Print [PStr ''ERR: Support info found for unknown coin'', PStr k] \<in> set ?out"
      using u by blast
    have O: "\<forall>k \<in> fst ` set (get_support_data ci).
         k \<notin> key ` set (coins (get_all ci) @ misc (get_all ci)) \<longrightarrow>
         Print [PStr ''INFO: Override present for coin'', PStr (coin_name ?cn k)] \<in> set ?out"
      using o by blast
    have D: "\<forall>ev \<in> set (collision_lines (find_address_collisions ci (coins (get_all ci)))).
         ev \<in> set ?out \<and> \<not> is_hard_error ev"
      using d by blast
    have E: "(backend_check \<longrightarrow>
          (\<forall>c \<in> set (coins (get_all ci)). truthy (coin_get c ''hash_genesis_block'')
              \<longrightarrow> (\<exists>bs. coin_backends c = Inr bs))) \<longrightarrow>
         ((exit_status (snd (check rq ci cms backend_check)) \<noteq> 0)
            = (\<exists>ev \<in> set ?out. is_hard_error ev)) \<and>
         ((exit_status (snd (check rq ci cms backend_check)) \<noteq> 0)
            = ((\<exists>c \<in> set (coins (get_all ci)). validate_btc ci c \<noteq> []) \<or>
               (\<exists>(k, s) \<in> set (get_support_data ci). validate_support ci s \<noteq> []) \<or>
               (cms \<and> (\<exists>k \<in> key ` set (coins (get_all ci) @ misc (get_all ci)).
                          k \<notin> fst ` set (get_support_data ci))) \<or>
               (\<exists>k \<in> fst ` set (get_support_data ci). k \<notin> key ` set (as_list (get_all ci))) \<or>
               (backend_check \<and> snd (check_backends rq (coins (get_all ci))) = Inr False)))"
      using e by (rule impI)
    show ?thesis by (intro conjI B C M U O D E)
  qed
  have P1: "backend_check \<and> rq = None \<longrightarrow>
      check rq ci cms backend_check
        = ([], Inl (ClickException ''You must install requests for backend check''))"
    using guard by (rule impI)
  have P3: "\<forall>fc. exit_status (snd (check rq (ci\<lparr>find_address_collisions := fc\<rparr>) cms backend_check))
      = exit_status (snd (check rq ci cms backend_check))"
    using coll by (rule allI)
  show ?thesis
    by (rule conjI [OF P1 conjI [OF impI [OF run] P3]])
qed

theorem check_exit_status_witness:
  "truthy (coin_get ex_probe_coin ''hash_genesis_block'') \<and>
   coin_backends ex_probe_coin = Inr [PStr ''https://a.example'', PStr ''https://b.example''] \<and>
   check (Some ex_http_probe) ex_check_info True True =
     ([Print [PStr ''Checking BTC-like coins...''],
       Print [PStr ''ERR:'', PStr ''invalid definition for'', PStr []],
       Print [PStr ''Missing name''],
       Print [PStr ''WARN: collisions found in'', PStr ''address_type''],
       Print [PStr ''-'', PInt 0, PStr '':'', PStr ''Bitcoin, Litecoin''],
       Print [PStr ''Checking support data...''],
       Print [PStr ''ERR:'', PStr ''invalid definition for'', PStr ''bitcoin:NONAME ()''],
       Print [PStr ''Missing support data''],
       Print [PStr ''ERR: Missing support info for'', PStr ''bitcoin:LTC (Litecoin)''],
       Print [PStr ''ERR: Support info found for unknown coin'', PStr ''bitcoin:XYZ''],
       Print [PStr ''INFO: Override present for coin'', PStr ''bitcoin:XYZ <unknown key>''],
       Print [PStr ''INFO: Override present for coin'', PStr ''erc20:eth:OMG (OmiseGO)''],
       Print [PStr ''Checking backend responses...''],
       PrintNoEnd [PStr ''checking'', PStr ''https://a.example'', PStr ''... ''],
       Print [PStr ''OK''],
       PrintNoEnd [PStr ''checking'', PStr ''https://b.example'', PStr ''... ''],
       PrintExc (RuntimeError ''genesis block mismatch''),
       Print [PStr ''Some checks failed.'']],
      Inl (SystemExit 1)) \<and>
   exit_status (snd (check (Some ex_http_probe) ex_check_info True True)) = 1 \<and>
   (\<exists>ev \<in> set (fst (check (Some ex_http_probe) ex_check_info True True)). is_hard_error ev) \<and>
   check (Some ex_http) ex_coin_info False True =
     ([Print [PStr ''Checking BTC-like coins...''],
       Print [PStr ''WARN: collisions found in'', PStr ''address_type''],
       Print [PStr ''-'', PInt 0, PStr '':'', PStr ''Bitcoin, Litecoin''],
       Print [PStr ''Checking support data...''],
       Print [PStr ''WARN: Missing support info for'', PStr ''bitcoin:LTC (Litecoin)''],
       Print [PStr ''INFO: Override present for coin'', PStr ''erc20:eth:OMG (OmiseGO)''],
       Print [PStr ''Checking backend responses...''],
       Print [PStr ''Everything is OK.'']], Inr ()) \<and>
   exit_status (snd (check (Some ex_http) ex_coin_info False True)) = 0 \<and>
   \<not> (\<exists>ev \<in> set (fst (check (Some ex_http) ex_coin_info False True)). is_hard_error ev)"
proof -
  have tr: "truthy (coin_get ex_probe_coin ''hash_genesis_block'')"
    by (simp add: coin_get_def coin_lookup_def ex_probe_coin_def)
  have bk: "coin_backends ex_probe_coin
              = Inr [PStr ''https://a.example'', PStr ''https://b.example'']"
    by (simp add: coin_backends_def coin_get_default_def coin_lookup_def ex_probe_coin_def)
  have strict: "check (Some ex_http_probe) ex_check_info True True =
     ([Print [PStr ''Checking BTC-like coins...''],
       Print [PStr ''ERR:'', PStr ''invalid definition for'', PStr []],
       Print [PStr ''Missing name''],
       Print [PStr ''WARN: collisions found in'', PStr ''address_type''],
       Print [PStr ''-'', PInt 0, PStr '':'', PStr ''Bitcoin, Litecoin''],
       Print [PStr ''Checking support data...''],
       Print [PStr ''ERR:'', PStr ''invalid definition for'', PStr ''bitcoin:NONAME ()''],
       Print [PStr ''Missing support data''],
       Print [PStr ''ERR: Missing support info for'', PStr ''bitcoin:LTC (Litecoin)''],
       Print [PStr ''ERR: Support info found for unknown coin'', PStr ''bitcoin:XYZ''],
       Print [PStr ''INFO: Override present for coin'', PStr ''bitcoin:XYZ <unknown key>''],
       Print [PStr ''INFO: Override present for coin'', PStr ''erc20:eth:OMG (OmiseGO)''],
       Print [PStr ''Checking backend responses...''],
       PrintNoEnd [PStr ''checking'', PStr ''https://a.example'', PStr ''... ''],
       Print [PStr ''OK''],
       PrintNoEnd [PStr ''checking'', PStr ''https://b.example'', PStr ''... ''],
       PrintExc (RuntimeError ''genesis block mismatch''),
       Print [PStr ''Some checks failed.'']],
      Inl (SystemExit 1))"
    by (simp add: check_def check_btc_def check_support_def check_backends_def Let_def
          ex_check_info_def ex_simps ex_probe_coin_def ex_nameless_def ex_http_probe_def
          coin_get_def coin_get_default_def coin_lookup_def coin_name_def coin_backends_def
          probe_backend_def py_eq_def)
  have lax: "check (Some ex_http) ex_coin_info False True =
     ([Print [PStr ''Checking BTC-like coins...''],
       Print [PStr ''WARN: collisions found in'', PStr ''address_type''],
       Print [PStr ''-'', PInt 0, PStr '':'', PStr ''Bitcoin, Litecoin''],
       Print [PStr ''Checking support data...''],
       Print [PStr ''WARN: Missing support info for'', PStr ''bitcoin:LTC (Litecoin)''],
       Print [PStr ''INFO: Override present for coin'', PStr ''erc20:eth:OMG (OmiseGO)''],
       Print [PStr ''Checking backend responses...''],
       Print [PStr ''Everything is OK.'']], Inr ())"
    by (simp add: check_def check_btc_def check_support_def check_backends_def Let_def
          ex_coin_info_def ex_simps coin_get_def coin_lookup_def coin_name_def)
  have ng: "\<not> (True \<and> Some ex_http_probe = None)"
    by simp
  have wf: "True \<longrightarrow> (\<forall>c \<in> set (coins (get_all ex_check_info)).
              truthy (coin_get c ''hash_genesis_block'') \<longrightarrow> (\<exists>bs. coin_backends c = Inr bs))"
    by (simp add: ex_check_info_def bk coin_get_def coin_lookup_def ex_simps ex_nameless_def)
  note t = check_exit_status [of True "Some ex_http_probe" ex_check_info True]
  note t2 = t [THEN conjunct2, THEN conjunct1, THEN mp, OF ng]
  note t3 = t2 [THEN conjunct2, THEN conjunct2, THEN conjunct2, THEN conjunct2, THEN conjunct2,
                THEN conjunct2, THEN mp, OF wf, THEN conjunct1]
  have ex1: "exit_status (snd (check (Some ex_http_probe) ex_check_info True True)) = 1"
    by (simp add: strict)
  then have hard: "\<exists>ev \<in> set (fst (check (Some ex_http_probe) ex_check_info True True)).
                     is_hard_error ev"
    using t3 by simp
  have ex0: "exit_status (snd (check (Some ex_http) ex_coin_info False True)) = 0"
    by (simp add: lax)
  have soft: "\<not> (\<exists>ev \<in> set (fst (check (Some ex_http) ex_coin_info False True)).
                     is_hard_error ev)"
    by (simp add: lax)
  show ?thesis
    using tr bk strict ex1 hard lax ex0 soft by (intro conjI)
qed

text \<open>
  The claim C5 as stated fails: the command also ends with a non-zero exit status, and
  no hard error recorded, when the backend check is requested without the HTTP client
  (nothing is validated then), and when line 147 raises on a backend entry that is not a
  list.
\<close>

theorem check_exit_without_hard_error:
  "check None ex_coin_info False True =
     ([], Inl (ClickException ''You must install requests for backend check'')) \<and>
   exit_status (snd (check None ex_coin_info False True)) = 1 \<and>
   \<not> (\<exists>ev \<in> set (fst (check None ex_coin_info False True)). is_hard_error ev) \<and>
   check (Some ex_http) ex_malformed_info False True =
     ([Print [PStr ''Checking BTC-like coins...''],
       Print [PStr ''Checking support data...''],
       Print [PStr ''Checking backend responses...'']],
      Inl (TypeError ''unsupported operand type(s) for +'')) \<and>
   exit_status (snd (check (Some ex_http) ex_malformed_info False True)) = 1 \<and>
   \<not> (\<exists>ev \<in> set (fst (check (Some ex_http) ex_malformed_info False True)). is_hard_error ev)"
proof -
  have a: "check None ex_coin_info False True =
     ([], Inl (ClickException ''You must install requests for backend check''))"
    by (simp add: check_def)
  have b: "check (Some ex_http) ex_malformed_info False True =
     ([Print [PStr ''Checking BTC-like coins...''],
       Print [PStr ''Checking support data...''],
       Print [PStr ''Checking backend responses...'']],
      Inl (TypeError ''unsupported operand type(s) for +''))"
    by (simp add: check_def check_btc_def check_support_def check_backends_def Let_def
          ex_malformed_info_def ex_null_backends_def ex_simps coin_get_def coin_get_default_def
          coin_lookup_def coin_name_def coin_backends_def)
  show ?thesis by (simp add: a b)
qed

lemma ex_modules_simps:
  "Image ex_modules = Some ex_pil" "protobuf ex_modules = Some ex_protobuf"
  "CoinDef ex_modules = Some ex_CoinDef" "ed25519 ex_modules = Some ex_ed25519"
  "zlib_compress ex_modules = ex_zlib_compress" "sha256 ex_modules = ex_sha256"
  "CAN_BUILD_DEFS ex_modules" "CAN_RENDER ex_modules" "requests ex_modules = Some ex_http"
  by (simp_all add: ex_modules_def import_modules_def ex_installed_def)

section \<open>Properties of convert_icon\<close>

text \<open>The colour of line 179 has the red, green and blue bits in the layout 5-6-5.\<close>

lemma num_F8: "(0xF8::int) = push_bit 3 (mask 5)"
  by (simp add: mask_eq_exp_minus_1 push_bit_eq_mult)

lemma num_FC: "(0xFC::int) = push_bit 2 (mask 6)"
  by (simp add: mask_eq_exp_minus_1 push_bit_eq_mult)

lemma idx:
  "2 \<le> n \<Longrightarrow> Suc (Suc (n - 2)) = n"
  "5 \<le> n \<Longrightarrow> Suc (Suc (n - 5)) = n - 3"
  "11 \<le> n \<Longrightarrow> 3 + (n - 11) = n - 8"
  "3 + n = n + 3"
  by simp_all

lemma and_F8: "uint (r::byte) AND 0xF8 = push_bit 3 (drop_bit 3 (uint r))"
  unfolding num_F8
  by (rule bit_eqI) (auto simp: bit_simps dest: bit_imp_le_length)

lemma and_FC: "uint (r::byte) AND 0xFC = push_bit 2 (drop_bit 2 (uint r))"
  unfolding num_FC
  by (rule bit_eqI) (auto simp: bit_simps idx dest: bit_imp_le_length)

lemma rgb565_shifts:
  "rgb565 r g b = push_bit 11 (drop_bit 3 (uint r)) OR (push_bit 5 (drop_bit 2 (uint g))
          OR drop_bit 3 (uint b))"
  unfolding rgb565_def and_F8 and_FC
  by (simp add: push_bit_push_bit drop_bit_push_bit ac_simps)

lemma rgb565_bits:
  "bit (rgb565 r g b) n =
     ((n < 5 \<and> bit b (n + 3)) \<or> (5 \<le> n \<and> n < 11 \<and> bit g (n - 3)) \<or>
      (11 \<le> n \<and> n < 16 \<and> bit r (n - 8)))"
proof -
  have b: "bit b (n + 3) \<Longrightarrow> n < 5" 
    using bit_imp_le_length [of b "n + 3"] by simp
  have g: "bit g (n - 3) \<Longrightarrow> n < 11"
    using bit_imp_le_length [of g "n - 3"] by simp
  have r: "bit r (n - 8) \<Longrightarrow> n < 16"
    using bit_imp_le_length [of r "n - 8"] by simp
  show ?thesis
    unfolding rgb565_shifts
    using b g r by (auto simp: bit_simps idx)
qed

lemma rgb565_eq:
  "rgb565 r g b = 2048 * (uint r div 8) + 32 * (uint g div 4) + uint b div 8"
proof -
  have 1: "push_bit 5 (drop_bit 2 (uint g)) + drop_bit 3 (uint b)
         = push_bit 5 (drop_bit 2 (uint g)) OR drop_bit 3 (uint b)"
    by (rule disjunctive_add) (auto simp: bit_simps idx dest: bit_imp_le_length)
  have 2: "push_bit 11 (drop_bit 3 (uint r)) + (push_bit 5 (drop_bit 2 (uint g)) OR drop_bit 3 (uint b))
         = push_bit 11 (drop_bit 3 (uint r)) OR (push_bit 5 (drop_bit 2 (uint g)) OR drop_bit 3 (uint b))"
    by (rule disjunctive_add) (auto simp: bit_simps idx dest: bit_imp_le_length)
  have "rgb565 r g b = push_bit 11 (drop_bit 3 (uint r)) + (push_bit 5 (drop_bit 2 (uint g)) + drop_bit 3 (uint b))"
    unfolding rgb565_shifts 1 2 ..
  then show ?thesis
    by (simp add: push_bit_eq_mult drop_bit_eq_div)
qed

lemma rgb565_range: "0 \<le> rgb565 r g b \<and> rgb565 r g b < 65536"
proof -
  have "uint r < 256" "uint g < 256" "uint b < 256" "0 \<le> uint r" "0 \<le> uint g" "0 \<le> uint b"
    using uint_bounded [of r] uint_bounded [of g] uint_bounded [of b] by simp_all
  then have "uint r div 8 \<le> 31" "uint g div 4 \<le> 63" "uint b div 8 \<le> 31"
     "0 \<le> uint r div 8" "0 \<le> uint g div 4" "0 \<le> uint b div 8"
    by presburger+
  then show ?thesis unfolding rgb565_eq by linarith
qed

lemma struct_pack_rgb565:
  "struct_pack_H (rgb565 r g b) = Inr (pack565 (r, g, b, a))"
  using rgb565_range [of r g b] by (simp add: struct_pack_H_def pack565_def)

lemma row_loop_eq:
  "\<forall>x \<in> set xs. x < fst (im_size img) \<Longrightarrow> y < snd (im_size img) \<Longrightarrow>
     row_loop img y xs data = Inr (data @ concat (map (\<lambda>x. pack565 (im_pixel img (x, y))) xs))"
proof (induction xs arbitrary: data)
  case Nil
  then show ?case by simp
next
  case (Cons x xs)
  obtain r g b a where p: "im_pixel img (x, y) = (r, g, b, a)"
    by (cases "im_pixel img (x, y)") auto
  have "pixel_access img x y = Inr (r, g, b, a)"
    using Cons.prems p by (simp add: pixel_access_def)
  then show ?case
    using Cons p by (simp add: struct_pack_rgb565 [of r g b a])
qed

lemma pixel_loop_eq:
  "DIM \<le> fst (im_size img) \<Longrightarrow> \<forall>y \<in> set ys. y < snd (im_size img) \<Longrightarrow>
     pixel_loop img ys data =
       Inr (data @ concat (map (\<lambda>y. concat (map (\<lambda>x. pack565 (im_pixel img (x, y))) [0..<DIM])) ys))"
proof (induction ys arbitrary: data)
  case Nil
  then show ?case by simp
next
  case (Cons y ys)
  have "row_loop img y [0..<DIM] data
          = Inr (data @ concat (map (\<lambda>x. pack565 (im_pixel img (x, y))) [0..<DIM]))"
    using Cons.prems by (intro row_loop_eq) auto
  then show ?case using Cons by simp
qed

lemma pixel_loop_data:
  "im_size img = (DIM, DIM) \<Longrightarrow> pixel_loop img [0..<DIM] [] = Inr (pixel_data img)"
  using pixel_loop_eq [of img "[0..<DIM]" "[]"] by (simp add: pixel_data_def)

lemma length_concat_blocks:
  "(\<And>i. i < n \<Longrightarrow> length (f i) = m) \<Longrightarrow> length (concat (map f [0..<n])) = m * n"
  by (induction n) simp_all

lemma nth_concat_blocks:
  "(\<And>i. i < n \<Longrightarrow> length (f i) = m) \<Longrightarrow> i < n \<Longrightarrow> j < m \<Longrightarrow>
     concat (map f [0..<n]) ! (m * i + j) = f i ! j"
proof (induction n)
  case 0
  then show ?case by simp
next
  case (Suc n)
  have len: "length (concat (map f [0..<n])) = m * n"
    using Suc.prems(1) by (intro length_concat_blocks) simp
  show ?case
  proof (cases "i < n")
    case True
    have "m * i + j < m * Suc i" using Suc.prems(3) by simp
    also have "\<dots> \<le> m * n" using True by (intro mult_le_mono2) simp
    finally have "m * i + j < m * n" .
    then show ?thesis using Suc True len by (simp add: nth_append)
  next
    case False
    then have "i = n" using Suc.prems(2) by simp
    then show ?thesis using len Suc.prems by (simp add: nth_append)
  qed
qed

lemma length_pack565: "length (pack565 p) = 2"
  by (cases p) (simp add: pack565_def)

lemma length_pixel_data: "length (pixel_data img) = 2048"
proof -
  have row: "length (concat (map (\<lambda>x. pack565 (im_pixel img (x, y))) [0..<DIM])) = 2 * DIM" for y
    by (rule length_concat_blocks) (simp add: length_pack565)
  have "length (pixel_data img) = (2 * DIM) * DIM"
    unfolding pixel_data_def by (rule length_concat_blocks) (simp add: row)
  then show ?thesis by (simp add: DIM_def)
qed

lemma nth_pixel_data:
  assumes "x < DIM" "y < DIM" "j < 2"
  shows "pixel_data img ! (2 * (DIM * y + x) + j) = pack565 (im_pixel img (x, y)) ! j"
proof -
  let ?row = "\<lambda>y. concat (map (\<lambda>x. pack565 (im_pixel img (x, y))) [0..<DIM])"
  have row: "length (?row y) = 2 * DIM" for y
    by (rule length_concat_blocks) (simp add: length_pack565)
  have "2 * x + j < 2 * DIM" using assms by simp
  then have "pixel_data img ! ((2 * DIM) * y + (2 * x + j)) = ?row y ! (2 * x + j)"
    unfolding pixel_data_def using assms(2) row by (intro nth_concat_blocks) auto
  also have "\<dots> = pack565 (im_pixel img (x, y)) ! j"
    using assms by (intro nth_concat_blocks) (auto simp: length_pack565)
  finally show ?thesis by (simp add: algebra_simps)
qed

lemma uint_pack565:
  "uint (pack565 (r, g, b, a) ! 0) * 256 + uint (pack565 (r, g, b, a) ! 1) = rgb565 r g b"
proof -
  let ?c = "rgb565 r g b"
  have rng: "0 \<le> ?c" "?c < 65536" using rgb565_range [of r g b] by simp_all
  then have hi: "0 \<le> ?c div 256" "?c div 256 < 256" by presburger+
  have "uint (word_of_int (?c div 256) :: byte) = ?c div 256"
    using hi by (simp add: uint_word_of_int take_bit_eq_mod)
  moreover have "uint (word_of_int (?c mod 256) :: byte) = ?c mod 256"
    by (simp add: uint_word_of_int take_bit_eq_mod)
  ultimately show ?thesis by (simp add: pack565_def)
qed

lemma strip_header_checksum:
  assumes "6 \<le> length z"
  shows "z = take 2 z @ drop 2 (take (length z - 4) z) @ drop (length z - 4) z"
proof -
  let ?t = "take (length z - 4) z"
  have "2 \<le> length z - 4"
    using assms by arith
  then have "take 2 ?t = take 2 z"
    by (simp add: min_def)
  then have "take 2 z @ drop 2 ?t = ?t"
    using append_take_drop_id [of 2 ?t] by simp
  then have "(take 2 z @ drop 2 ?t) @ drop (length z - 4) z = ?t @ drop (length z - 4) z"
    by (rule arg_cong)
  then have "take 2 z @ drop 2 ?t @ drop (length z - 4) z = z"
    by (simp only: append_assoc append_take_drop_id)
  then show ?thesis by (rule sym)
qed

lemma convert_icon_run:
  assumes "Image g = Some pil"
    and "Image_resize pil icon0 (32, 32) LANCZOS = Inr icon1"
    and "im_size icon1 = (32, 32)"
    and "Image_alpha_composite pil (Image_new ''RGBA'' (32, 32) (0, 0, 0, 255)) icon1 = Inr icon2"
    and "im_size icon2 = (32, 32)"
  shows "convert_icon g icon0 =
           Inr (drop 2 (take (length (zlib_compress g 9 10 (pixel_data icon2)) - 4)
                          (zlib_compress g 9 10 (pixel_data icon2))))"
  using assms pixel_loop_data [of icon2]
  by (simp add: convert_icon_def DIM_def Let_def)

text \<open>
  C9. When PIL is imported, the resize to 32 x 32 with the LANCZOS filter returns an image
  of that size, and compositing it onto an opaque black RGBA image of that size returns an
  image of that size, then convert_icon returns the output of zlib (level 9, window bits
  10) for the pixel buffer, without its first 2 and its last 4 bytes. The buffer has 2048
  bytes; the two bytes at offset \<open>2 * (32 * y + x)\<close> are, high byte first, the 16-bit value
  with the top 5 bits of red, the top 6 bits of green and the top 5 bits of blue of the
  composited pixel \<open>(x, y)\<close>.
\<close>

theorem convert_icon_spec:
  assumes "Image g = Some pil"
    and "Image_resize pil icon0 (32, 32) LANCZOS = Inr icon1"
    and "im_size icon1 = (32, 32)"
    and "Image_alpha_composite pil (Image_new ''RGBA'' (32, 32) (0, 0, 0, 255)) icon1 = Inr icon2"
    and "im_size icon2 = (32, 32)"
  shows "convert_icon g icon0 =
           Inr (drop 2 (take (length (zlib_compress g 9 10 (pixel_data icon2)) - 4)
                          (zlib_compress g 9 10 (pixel_data icon2)))) \<and>
         length (pixel_data icon2) = 2048 \<and>
         (\<forall>x < 32. \<forall>y < 32. \<forall>r gr b a. im_pixel icon2 (x, y) = (r, gr, b, a) \<longrightarrow>
            uint (pixel_data icon2 ! (2 * (32 * y + x))) * 256
              + uint (pixel_data icon2 ! (2 * (32 * y + x) + 1))
            = 2048 * (uint r div 8) + 32 * (uint gr div 4) + uint b div 8) \<and>
         (6 \<le> length (zlib_compress g 9 10 (pixel_data icon2)) \<longrightarrow>
            (\<exists>header checksum. length header = 2 \<and> length checksum = 4 \<and>
               (\<forall>z. convert_icon g icon0 = Inr z \<longrightarrow>
                  zlib_compress g 9 10 (pixel_data icon2) = header @ z @ checksum)))"
proof -
  let ?z = "zlib_compress g 9 10 (pixel_data icon2)"
  have run: "convert_icon g icon0 = Inr (drop 2 (take (length ?z - 4) ?z))"
    using assms by (rule convert_icon_run)
  have px: "uint (pixel_data icon2 ! (2 * (32 * y + x))) * 256
              + uint (pixel_data icon2 ! (2 * (32 * y + x) + 1))
            = 2048 * (uint r div 8) + 32 * (uint gr div 4) + uint b div 8"
    if "x < 32" "y < 32" "im_pixel icon2 (x, y) = (r, gr, b, a)" for x y r gr b a
  proof -
    have "pixel_data icon2 ! (2 * (DIM * y + x) + 0) = pack565 (r, gr, b, a) ! 0"
         "pixel_data icon2 ! (2 * (DIM * y + x) + 1) = pack565 (r, gr, b, a) ! 1"
      using that nth_pixel_data [of x y 0 icon2] nth_pixel_data [of x y 1 icon2]
      by (simp_all add: DIM_def)
    then show ?thesis
      using uint_pack565 [of r gr b a] by (simp add: DIM_def rgb565_eq)
  qed
  have strip: "\<exists>header checksum. length header = 2 \<and> length checksum = 4 \<and>
               (\<forall>z. convert_icon g icon0 = Inr z \<longrightarrow> ?z = header @ z @ checksum)"
    if "6 \<le> length ?z"
  proof -
    have "length (take 2 ?z) = 2 \<and> length (drop (length ?z - 4) ?z) = 4 \<and>
       (\<forall>z. convert_icon g icon0 = Inr z \<longrightarrow> ?z = take 2 ?z @ z @ drop (length ?z - 4) ?z)"
      using that strip_header_checksum [OF that] run by auto
    then show ?thesis by blast
  qed
  show ?thesis using run px strip length_pixel_data by blast
qed

theorem convert_icon_spec_witness:
  "Image ex_modules = Some ex_pil \<and>
   Image_resize ex_pil ex_icon (32, 32) LANCZOS = Inr (ex_resize ex_icon (32, 32)) \<and>
   im_size (ex_resize ex_icon (32, 32)) = (32, 32) \<and>
   Image_alpha_composite ex_pil (Image_new ''RGBA'' (32, 32) (0, 0, 0, 255))
       (ex_resize ex_icon (32, 32)) = Inr ex_flat \<and>
   im_size ex_flat = (32, 32) \<and>
   convert_icon ex_modules ex_icon = Inr (pixel_data ex_flat) \<and>
   length (pixel_data ex_flat) = 2048 \<and>
   im_pixel ex_flat (1, 0) = (8, 0, 255, 255) \<and>
   uint (pixel_data ex_flat ! 2) * 256 + uint (pixel_data ex_flat ! 3) = 2079"
proof -
  have h1: "Image ex_modules = Some ex_pil"
    by (simp add: ex_modules_simps)
  have h2: "Image_resize ex_pil ex_icon (32, 32) LANCZOS = Inr (ex_resize ex_icon (32, 32))"
    by (simp add: ex_pil_def)
  have h3: "im_size (ex_resize ex_icon (32, 32)) = (32, 32)"
    by (simp add: ex_resize_def)
  have h4: "Image_alpha_composite ex_pil (Image_new ''RGBA'' (32, 32) (0, 0, 0, 255))
       (ex_resize ex_icon (32, 32)) = Inr ex_flat"
    by (simp add: ex_pil_def ex_flat_def Image_new_def ex_resize_def ex_icon_def)
  have h5: "im_size ex_flat = (32, 32)"
    by (simp add: ex_flat_def ex_composite_def Image_new_def)
  have px: "im_pixel ex_flat (1, 0) = (8, 0, 255, 255)"
    by (simp add: ex_flat_def ex_composite_def Image_new_def ex_resize_def ex_icon_def
          ex_over_def)
  have z: "drop 2 (take (length (zlib_compress ex_modules 9 10 (pixel_data ex_flat)) - 4)
                          (zlib_compress ex_modules 9 10 (pixel_data ex_flat))) = pixel_data ex_flat"
    by (simp add: ex_modules_simps ex_zlib_compress_def)
  note spec = convert_icon_spec [OF h1 h2 h3 h4 h5, unfolded z]
  from spec have run: "convert_icon ex_modules ex_icon = Inr (pixel_data ex_flat)"
    and len: "length (pixel_data ex_flat) = 2048"
    by simp_all
  from spec have "\<forall>x < 32. \<forall>y < 32. \<forall>r gr b a. im_pixel ex_flat (x, y) = (r, gr, b, a) \<longrightarrow>
            uint (pixel_data ex_flat ! (2 * (32 * y + x))) * 256
              + uint (pixel_data ex_flat ! (2 * (32 * y + x) + 1))
            = 2048 * (uint r div 8) + 32 * (uint gr div 4) + uint b div 8"
    by blast
  from this [rule_format, of 1 0, OF _ _ px]
  have val: "uint (pixel_data ex_flat ! 2) * 256 + uint (pixel_data ex_flat ! 3) = 2079"
    by simp
  show ?thesis
    using h1 h2 h3 h4 h5 px run len val by simp
qed

section \<open>Properties of the definition encoder\<close>

lemma coindef_from_dict_loop_step:
  "coindef_from_dict_loop g c (fd # rest) proto =
     (case field_value g c fd of
        Inl e \<Rightarrow> Inl e
      | Inr v \<Rightarrow> coindef_from_dict_loop g c rest (proto(fst fd \<mapsto> v)))"
  by (cases fd) (auto simp: field_value_def Let_def split: option.splits sum.splits)

lemma coindef_from_dict_loop_fails:
  "fd \<in> set fs \<Longrightarrow> field_value g c fd = Inl e \<Longrightarrow>
     \<exists>e'. coindef_from_dict_loop g c fs proto = Inl e'"
proof (induction fs arbitrary: proto)
  case Nil
  then show ?case by simp
next
  case (Cons a fs)
  show ?case
  proof (cases "field_value g c a")
    case (Inl e1)
    then show ?thesis by (simp add: coindef_from_dict_loop_step)
  next
    case (Inr v)
    then have "fd \<in> set fs" using Cons.prems by auto
    then show ?thesis
      using Cons.IH Cons.prems(2) Inr by (simp add: coindef_from_dict_loop_step)
  qed
qed

lemma coindef_from_dict_loop_cong:
  "\<forall>fd \<in> set fs. coin_get c1 (fst fd) = coin_get c2 (fst fd) \<Longrightarrow>
     coindef_from_dict_loop g c1 fs proto = coindef_from_dict_loop g c2 fs proto"
proof (induction fs arbitrary: proto)
  case Nil
  then show ?case by simp
next
  case (Cons a fs)
  have "field_value g c1 a = field_value g c2 a"
    using Cons.prems by (cases a) (auto simp: field_value_def split: option.splits)
  then show ?case
    using Cons by (simp add: coindef_from_dict_loop_step split: sum.splits)
qed

text \<open>
  C10. A field of the table named \<^verbatim>\<open>signed_message_header\<close> or \<^verbatim>\<open>hash_genesis_block\<close> that is
  not declared repeatable and that the record does not have (or has as \<^verbatim>\<open>None\<close>): no
  empty sequence is substituted, the coercion of the field raises (\<^verbatim>\<open>AttributeError\<close> from
  \<^verbatim>\<open>None.encode\<close>, \<^verbatim>\<open>TypeError\<close> from \<^verbatim>\<open>unhexlify(None)\<close>), and coindef_from_dict and the
  encoder end with an exception, not with a message.
\<close>

theorem coindef_from_dict_missing_field:
  assumes "CoinDef g = Some cd" and "protobuf g = Some pb"
    and "(fname, ftype, fflags) \<in> set (FIELDS cd)"
    and "fname = ''signed_message_header'' \<or> fname = ''hash_genesis_block''"
    and "fflags AND FLAG_REPEATED pb = 0"
    and "coin_get c fname = PNone"
  shows "field_value g c (fname, ftype, fflags) =
           (if fname = ''signed_message_header'' then Inl (AttributeError ''encode'')
            else Inl (TypeError ''argument should be bytes, buffer or ASCII string'')) \<and>
         (\<exists>e. coindef_from_dict g c = Inl e) \<and>
         (\<exists>e. definition_encoder g c icon_bytes = Inl e)"
proof -
  have fv: "field_value g c (fname, ftype, fflags) =
           (if fname = ''signed_message_header'' then Inl (AttributeError ''encode'')
            else Inl (TypeError ''argument should be bytes, buffer or ASCII string''))"
    using assms by (auto simp: field_value_def coerce_field_def str_encode_def unhexlify_def)
  then obtain e where "field_value g c (fname, ftype, fflags) = Inl e"
    by (cases "fname = ''signed_message_header''") simp_all
  then obtain e' where e': "coindef_from_dict g c = Inl e'"
    using coindef_from_dict_loop_fails [OF assms(3), of g c e "new_message cd"] assms(1)
    by (auto simp: coindef_from_dict_def)
  then have "definition_encoder g c icon_bytes = Inl e'"
    by (simp add: definition_encoder_def)
  then show ?thesis using fv e' by blast
qed

text \<open>
  The payload depends on nothing but the values of the schema's fields and the icon:
  records that agree on every field of the table \<^verbatim>\<open>FIELDS\<close> give, with the same encoded
  icon, the same bytes or the same exception.
\<close>

lemma definition_encoder_schema_fields:
  assumes "\<forall>cd. CoinDef g = Some cd \<longrightarrow>
             (\<forall>(fname, ftype, fflags) \<in> set (FIELDS cd). coin_get c1 fname = coin_get c2 fname)"
  shows "definition_encoder g c1 icon_bytes = definition_encoder g c2 icon_bytes"
proof (cases "CoinDef g")
  case None
  then show ?thesis by (simp add: definition_encoder_def coindef_from_dict_def)
next
  case (Some cd)
  then have "\<forall>fd \<in> set (FIELDS cd). coin_get c1 (fst fd) = coin_get c2 (fst fd)"
    using assms by auto
  then have "coindef_from_dict g c1 = coindef_from_dict g c2"
    using Some coindef_from_dict_loop_cong [of "FIELDS cd" c1 c2 g "new_message cd"]
    by (simp add: coindef_from_dict_def)
  then show ?thesis by (simp add: definition_encoder_def)
qed

section \<open>Properties of the command coindefs\<close>

text \<open>\<^verbatim>\<open>unhexlify\<close> reads back what \<^verbatim>\<open>hexlify\<close> writes.\<close>

lemma hex_val_hex_char: "n < 16 \<Longrightarrow> hex_val (hex_char n) = Some n"
proof -
  assume "n < 16"
  then have "n \<in> {0, 1, 2, 3, 4, 5, 6, 7, 8, 9, 10, 11, 12, 13, 14, 15}"
    by (simp add: insert_iff) arith
  then show ?thesis
    by (auto simp: hex_char_def hex_val_def)
qed

lemma hex_char_ascii: "n < 16 \<Longrightarrow> (of_char (hex_char n) :: nat) < 128"
proof -
  assume "n < 16"
  then have "n \<in> {0, 1, 2, 3, 4, 5, 6, 7, 8, 9, 10, 11, 12, 13, 14, 15}"
    by (simp add: insert_iff) arith
  then show ?thesis
    by (auto simp: hex_char_def)
qed

lemma byte_nibbles: "(of_nat (16 * (unat b div 16) + unat b mod 16) :: byte) = b"
  by simp

lemma hexlify_simps:
  "hexlify [] = []"
  "hexlify (b # bs) = hex_char (unat b div 16) # hex_char (unat b mod 16) # hexlify bs"
  by (simp_all add: hexlify_def)

lemma nibble_bounds: "unat (b::byte) div 16 < 16" "unat b mod 16 < 16"
proof -
  have "unat b < 2 ^ LENGTH(8)" by (rule unsigned_less)
  then have "unat b < 256" by simp
  then show "unat b div 16 < 16" by simp
  show "unat b mod 16 < 16" by simp
qed

lemma unhex_hexlify: "unhex (hexlify bs) = Inr bs"
  by (induction bs) (simp_all add: hexlify_simps hex_val_hex_char nibble_bounds byte_nibbles)

lemma length_hexlify: "length (hexlify bs) = 2 * length bs"
  by (induction bs) (simp_all add: hexlify_simps)

lemma hexlify_ascii: "\<not> list_ex (\<lambda>c. 128 \<le> (of_char c :: nat)) (hexlify bs)"
  by (induction bs) (simp_all add: hexlify_simps hex_char_ascii nibble_bounds not_le)

lemma unhexlify_hexlify: "unhexlify (PStr (hexlify bs)) = Inr bs"
  by (simp add: unhexlify_def hexlify_ascii length_hexlify unhex_hexlify)

lemma coin_definition_Inr:
  assumes "coin_definition g c = Inr (k, d)"
  shows "k = key c \<and>
         (\<exists>pil signing_key icon0 zdata ser sig.
            Image g = Some pil \<and> Image_open pil (icon c) = Inr icon0 \<and>
            convert_icon g icon0 = Inr zdata \<and>
            definition_encoder g c zdata = Inr ser \<and>
            ed25519 g = Some signing_key \<and>
            signing_key (replicate 32 0x41) (sha256 g ser) = Inr sig \<and>
            d = hexlify (sig @ ser))"
  using assms
  by (auto simp: coin_definition_def definition_encoder_def sign_def Let_def
        split: option.splits sum.splits)

lemma coindefs_loop_other:
  "coindefs_loop g cs m0 = Inr m \<Longrightarrow> k \<notin> key ` set cs \<Longrightarrow> m k = m0 k"
proof (induction cs arbitrary: m0)
  case Nil
  then show ?case by simp
next
  case (Cons c cs)
  from Cons.prems(1) obtain k' d where cd: "coin_definition g c = Inr (k', d)"
    and rest: "coindefs_loop g cs (m0(k' \<mapsto> d)) = Inr m"
    by (auto split: sum.splits)
  have "k' = key c" using coin_definition_Inr [OF cd] by simp
  then have "k \<noteq> k'" using Cons.prems(2) by auto
  moreover have "m k = (m0(k' \<mapsto> d)) k"
    using Cons.IH [OF rest] Cons.prems(2) by simp
  ultimately show ?case by simp
qed

lemma coindefs_loop_entry:
  "coindefs_loop g cs m0 = Inr m \<Longrightarrow> distinct (map key cs) \<Longrightarrow> c \<in> set cs \<Longrightarrow>
     \<exists>d. coin_definition g c = Inr (key c, d) \<and> m (key c) = Some d"
proof (induction cs arbitrary: m0)
  case Nil
  then show ?case by simp
next
  case (Cons a cs)
  from Cons.prems(1) obtain k' d where cd: "coin_definition g a = Inr (k', d)"
    and rest: "coindefs_loop g cs (m0(k' \<mapsto> d)) = Inr m"
    by (auto split: sum.splits)
  have k': "k' = key a" using coin_definition_Inr [OF cd] by simp
  show ?case
  proof (cases "c = a")
    case True
    have "key a \<notin> key ` set cs" using Cons.prems(2) by simp
    then have "m (key a) = (m0(k' \<mapsto> d)) (key a)"
      using coindefs_loop_other [OF rest] by simp
    then show ?thesis using True cd k' by simp
  next
    case False
    then have "c \<in> set cs" using Cons.prems(3) by simp
    then show ?thesis using Cons.IH [OF rest] Cons.prems(2) by simp
  qed
qed

text \<open>
  C1. When the command coindefs returns its dictionary, every coin of the list (the keys
  being unique) has under its key the lower-case hex encoding of the signature followed by
  the payload: the payload is what the encoder returns for the record and its converted
  icon, the signature is what ed25519 returns for the key made of 32 bytes \<open>0x41\<close> (the
  letter A) and the SHA-256 digest of the payload. Decoding the hex string gives back the
  signature bytes followed by the unchanged payload bytes.
\<close>

theorem coindefs_definition:
  assumes "coindefs g ci = Inr m"
      and "c \<in> set (coins (get_all ci))"
      and "distinct (map key (coins (get_all ci)))"
  shows "\<exists>pil signing_key icon0 zdata ser sig.
           Image g = Some pil \<and> Image_open pil (icon c) = Inr icon0 \<and>
           convert_icon g icon0 = Inr zdata \<and>
           definition_encoder g c zdata = Inr ser \<and>
           ed25519 g = Some signing_key \<and>
           signing_key (replicate 32 0x41) (sha256 g ser) = Inr sig \<and>
           m (key c) = Some (hexlify (sig @ ser)) \<and>
           unhexlify (PStr (hexlify (sig @ ser))) = Inr (sig @ ser) \<and>
           take (2 * length sig) (hexlify (sig @ ser)) = hexlify sig \<and>
           drop (2 * length sig) (hexlify (sig @ ser)) = hexlify ser"
proof -
  obtain d where cd: "coin_definition g c = Inr (key c, d)" and m: "m (key c) = Some d"
    using coindefs_loop_entry [of g "coins (get_all ci)" Map.empty m c] assms
    by (auto simp: coindefs_def)
  have app: "hexlify (sig @ ser) = hexlify sig @ hexlify ser" for sig ser
    by (simp add: hexlify_def)
  have tk: "take (2 * length sig) (hexlify (sig @ ser)) = hexlify sig"
    and dr: "drop (2 * length sig) (hexlify (sig @ ser)) = hexlify ser" for sig ser
    by (simp_all add: app length_hexlify)
  obtain pil signing_key icon0 zdata ser sig where
    "Image g = Some pil" "Image_open pil (icon c) = Inr icon0"
    "convert_icon g icon0 = Inr zdata" "definition_encoder g c zdata = Inr ser"
    "ed25519 g = Some signing_key"
    "signing_key (replicate 32 0x41) (sha256 g ser) = Inr sig"
    "d = hexlify (sig @ ser)"
    using coin_definition_Inr [OF cd] by blast
  then show ?thesis
    using m unhexlify_hexlify [of "sig @ ser"] tk [of sig ser] dr [of sig ser] by blast
qed

lemma coindefs_loop_aborts:
  "\<forall>c' \<in> set pre. \<exists>r. coin_definition g c' = Inr r \<Longrightarrow> coin_definition g c = Inl e \<Longrightarrow>
     coindefs_loop g (pre @ c # post) m0 = Inl e"
  by (induction pre arbitrary: m0) (auto split: sum.splits)

text \<open>
  C3, as the code has it. The loop of coindefs has no exception handler: when the body
  raises for one coin after all earlier coins went through, the command ends with that
  exception, whatever coins follow, and returns no dictionary.
\<close>

theorem coindefs_aborts:
  assumes "coins (get_all ci) = pre @ c # post"
      and "\<forall>c' \<in> set pre. \<exists>r. coin_definition g c' = Inr r"
      and "coin_definition g c = Inl e"
  shows "coindefs g ci = Inl e"
  using assms by (simp add: coindefs_def coindefs_loop_aborts)

lemma ex_convert_icon: "convert_icon ex_modules ex_icon = Inr (pixel_data ex_flat)"
proof -
  have h1: "Image ex_modules = Some ex_pil"
    by (simp add: ex_modules_simps)
  have h2: "Image_resize ex_pil ex_icon (32, 32) LANCZOS = Inr (ex_resize ex_icon (32, 32))"
    by (simp add: ex_pil_def)
  have h3: "im_size (ex_resize ex_icon (32, 32)) = (32, 32)"
    by (simp add: ex_resize_def)
  have h4: "Image_alpha_composite ex_pil (Image_new ''RGBA'' (32, 32) (0, 0, 0, 255))
       (ex_resize ex_icon (32, 32)) = Inr ex_flat"
    by (simp add: ex_pil_def ex_flat_def Image_new_def ex_resize_def ex_icon_def)
  have h5: "im_size ex_flat = (32, 32)"
    by (simp add: ex_flat_def ex_composite_def Image_new_def)
  show ?thesis
    using convert_icon_run [OF h1 h2 h3 h4 h5]
    by (simp add: ex_modules_simps ex_zlib_compress_def)
qed

lemma ex_coindef_from_dict:
  "coindef_from_dict ex_modules ex_coin =
     Inr [''coin_name'' \<mapsto> PStr ''Bitcoin'', ''signed_message_header'' \<mapsto> PBytes ex_header,
          ''hash_genesis_block'' \<mapsto> PBytes [0, 255], ''bitcore'' \<mapsto> PList [],
          ''icon'' \<mapsto> PStr ''btc.png'']"
  by (simp add: coindef_from_dict_def ex_modules_simps ex_CoinDef_def ex_protobuf_def
      ex_coin_def coin_get_def coin_lookup_def coerce_field_def str_encode_def unhexlify_def
      hex_val_def Let_def ex_header_def)

lemma ex_definition_encoder:
  "definition_encoder ex_modules ex_coin zdata = Inr (ex_header @ zdata)"
  by (simp add: definition_encoder_def ex_coindef_from_dict serialize_coindef_def
      ex_modules_simps ex_protobuf_def)

lemma ex_coin_definition:
  "coin_definition ex_modules ex_coin = Inr (''bitcoin:BTC'', hexlify (ex_sig @ ex_ser))"
proof -
  have o: "Image_open ex_pil (icon ex_coin) = Inr ex_icon"
    by (simp add: ex_pil_def ex_coin_def)
  have s: "serialize_coindef ex_modules
     [''coin_name'' \<mapsto> PStr ''Bitcoin'', ''signed_message_header'' \<mapsto> PBytes ex_header,
          ''hash_genesis_block'' \<mapsto> PBytes [0, 255], ''bitcore'' \<mapsto> PList [],
          ''icon'' \<mapsto> PStr ''btc.png''] (pixel_data ex_flat) = Inr ex_ser"
    by (simp add: serialize_coindef_def ex_modules_simps ex_protobuf_def ex_ser_def)
  have g: "sign ex_modules ex_ser = Inr ex_sig"
    by (simp add: sign_def Let_def ex_modules_simps ex_ed25519_def ex_sig_def)
  have k: "key ex_coin = ''bitcoin:BTC''"
    by (simp add: ex_coin_def)
  show ?thesis
    by (simp add: coin_definition_def ex_modules_simps o ex_coindef_from_dict ex_convert_icon
        s g k)
qed

lemma ex_coin_definition_noicon:
  "coin_definition ex_modules ex_coin_noicon = Inl (IOError ''No such file or directory'')"
  by (simp add: coin_definition_def ex_modules_simps ex_pil_def ex_coin_noicon_def ex_coin_def)

theorem coindefs_definition_witness:
  "coindefs ex_modules ex_gen_info = Inr [''bitcoin:BTC'' \<mapsto> hexlify (ex_sig @ ex_ser)] \<and>
   ex_coin \<in> set (coins (get_all ex_gen_info)) \<and>
   distinct (map key (coins (get_all ex_gen_info))) \<and>
   convert_icon ex_modules ex_icon = Inr (pixel_data ex_flat) \<and>
   definition_encoder ex_modules ex_coin (pixel_data ex_flat) = Inr ex_ser \<and>
   ex_ed25519 (replicate 32 0x41) (ex_sha256 ex_ser) = Inr ex_sig \<and>
   take (2 * length ex_sig) (hexlify (ex_sig @ ex_ser)) = hexlify ex_sig \<and>
   drop (2 * length ex_sig) (hexlify (ex_sig @ ex_ser)) = hexlify ex_ser"
proof -
  have h1: "coindefs ex_modules ex_gen_info = Inr [''bitcoin:BTC'' \<mapsto> hexlify (ex_sig @ ex_ser)]"
    by (simp add: coindefs_def ex_gen_info_def ex_coin_definition)
  have h2: "ex_coin \<in> set (coins (get_all ex_gen_info))"
    by (simp add: ex_gen_info_def)
  have h3: "distinct (map key (coins (get_all ex_gen_info)))"
    by (simp add: ex_gen_info_def)
  have e: "definition_encoder ex_modules ex_coin (pixel_data ex_flat) = Inr ex_ser"
    by (simp add: ex_definition_encoder ex_ser_def)
  have sg: "ex_ed25519 (replicate 32 0x41) (ex_sha256 ex_ser) = Inr ex_sig"
    by (simp add: ex_ed25519_def ex_sig_def)
  obtain pil signing_key icon0 zdata ser sig where w:
    "Image ex_modules = Some pil" "Image_open pil (icon ex_coin) = Inr icon0"
    "convert_icon ex_modules icon0 = Inr zdata"
    "definition_encoder ex_modules ex_coin zdata = Inr ser"
    "ed25519 ex_modules = Some signing_key"
    "signing_key (replicate 32 0x41) (sha256 ex_modules ser) = Inr sig"
    "take (2 * length sig) (hexlify (sig @ ser)) = hexlify sig"
    "drop (2 * length sig) (hexlify (sig @ ser)) = hexlify ser"
    using coindefs_definition [OF h1 h2 h3] by blast
  have "pil = ex_pil" using w(1) by (simp add: ex_modules_simps)
  then have "icon0 = ex_icon" using w(2) by (simp add: ex_pil_def ex_coin_def)
  then have "zdata = pixel_data ex_flat" using w(3) by (simp add: ex_convert_icon)
  then have ser: "ser = ex_ser" using w(4) e by simp
  have "signing_key = ex_ed25519" using w(5) by (simp add: ex_modules_simps)
  then have "sig = ex_sig" using w(6) ser sg by (simp add: ex_modules_simps)
  then show ?thesis
    using h1 h2 h3 e sg w(7,8) ser ex_convert_icon by simp
qed

lemma definition_encoder_schema_fields_example:
  "ex_coin \<noteq> ex_coin_extra \<and>
   CoinDef ex_modules = Some ex_CoinDef \<and>
   list_all (\<lambda>(fname, ftype, fflags). coin_get ex_coin fname = coin_get ex_coin_extra fname)
     (FIELDS ex_CoinDef) \<and>
   definition_encoder ex_modules ex_coin [1, 2, 3] = Inr (ex_header @ [1, 2, 3]) \<and>
   definition_encoder ex_modules ex_coin_extra [1, 2, 3] = Inr (ex_header @ [1, 2, 3])"
proof -
  have ne: "ex_coin \<noteq> ex_coin_extra"
  proof
    assume "ex_coin = ex_coin_extra"
    then have "entries ex_coin ''maintainer'' = entries ex_coin_extra ''maintainer''" by simp
    then show False by (simp add: ex_coin_extra_def ex_coin_def)
  qed
  have cd: "CoinDef ex_modules = Some ex_CoinDef"
    by (simp add: ex_modules_simps)
  have ag: "list_all (\<lambda>(fname, ftype, fflags). coin_get ex_coin fname = coin_get ex_coin_extra fname)
     (FIELDS ex_CoinDef)"
    by (simp add: ex_CoinDef_def coin_get_def coin_lookup_def ex_coin_extra_def ex_coin_def)
  have h: "\<forall>cd. CoinDef ex_modules = Some cd \<longrightarrow>
             (\<forall>(fname, ftype, fflags) \<in> set (FIELDS cd).
                coin_get ex_coin fname = coin_get ex_coin_extra fname)"
    using ag by (simp add: cd list_all_iff)
  show ?thesis
    using definition_encoder_schema_fields [OF h, of "[1, 2, 3]"] ne cd ag
    by (simp add: ex_definition_encoder)
qed

theorem coindef_from_dict_missing_field_witness:
  "CoinDef ex_modules = Some ex_CoinDef \<and> protobuf ex_modules = Some ex_protobuf \<and>
   (''signed_message_header'', ''BytesType'', 0) \<in> set (FIELDS ex_CoinDef) \<and>
   (0::int) AND FLAG_REPEATED ex_protobuf = 0 \<and>
   coin_get ex_coin_bare ''signed_message_header'' = PNone \<and>
   field_value ex_modules ex_coin_bare (''signed_message_header'', ''BytesType'', 0)
     = Inl (AttributeError ''encode'') \<and>
   coindef_from_dict ex_modules ex_coin_bare = Inl (AttributeError ''encode'') \<and>
   definition_encoder ex_modules ex_coin_bare [1, 2, 3] = Inl (AttributeError ''encode'')"
proof -
  have h1: "CoinDef ex_modules = Some ex_CoinDef" and h2: "protobuf ex_modules = Some ex_protobuf"
    by (simp_all add: ex_modules_simps)
  have h3: "(''signed_message_header'', ''BytesType'', 0) \<in> set (FIELDS ex_CoinDef)"
    by (simp add: ex_CoinDef_def)
  have h4: "''signed_message_header'' = ''signed_message_header''
              \<or> ''signed_message_header'' = ''hash_genesis_block''"
    by simp
  have h5: "(0::int) AND FLAG_REPEATED ex_protobuf = 0"
    by simp
  have h6: "coin_get ex_coin_bare ''signed_message_header'' = PNone"
    by (simp add: coin_get_def coin_lookup_def ex_coin_bare_def)
  have run: "coindef_from_dict ex_modules ex_coin_bare = Inl (AttributeError ''encode'')"
    by (simp add: coindef_from_dict_def ex_modules_simps ex_CoinDef_def ex_protobuf_def
        ex_coin_bare_def coin_get_def coin_lookup_def coerce_field_def str_encode_def Let_def)
  show ?thesis
    using coindef_from_dict_missing_field [OF h1 h2 h3 h4 h5 h6, of "[1, 2, 3]"]
      h1 h2 h3 h5 h6 run
    by (simp add: definition_encoder_def)
qed

theorem coindefs_aborts_witness:
  "coins (get_all ex_abort_info) = [ex_coin] @ ex_coin_noicon # [ex_coin_bare] \<and>
   coin_definition ex_modules ex_coin = Inr (''bitcoin:BTC'', hexlify (ex_sig @ ex_ser)) \<and>
   coin_definition ex_modules ex_coin_noicon = Inl (IOError ''No such file or directory'') \<and>
   coindefs ex_modules ex_abort_info = Inl (IOError ''No such file or directory'')"
proof -
  have h1: "coins (get_all ex_abort_info) = [ex_coin] @ ex_coin_noicon # [ex_coin_bare]"
    by (simp add: ex_abort_info_def)
  have h2: "\<forall>c' \<in> set [ex_coin]. \<exists>r. coin_definition ex_modules c' = Inr r"
    by (simp add: ex_coin_definition)
  show ?thesis
    using coindefs_aborts [OF h1 h2 ex_coin_definition_noicon] h1
    by (simp add: ex_coin_definition ex_coin_definition_noicon)
qed

text \<open>
  The claim C3 as stated fails: with a coin whose icon cannot be opened in front of a coin
  that converts well on its own, the command ends with the exception and the second coin
  gets no definition.
\<close>

theorem coindefs_failure_not_isolated:
  "coin_definition ex_modules ex_coin_noicon = Inl (IOError ''No such file or directory'') \<and>
   coin_definition ex_modules ex_coin = Inr (''bitcoin:BTC'', hexlify (ex_sig @ ex_ser)) \<and>
   coins (get_all ex_bad_first_info) = [ex_coin_noicon, ex_coin] \<and>
   coindefs ex_modules ex_bad_first_info = Inl (IOError ''No such file or directory'') \<and>
   \<not> (\<exists>m. coindefs ex_modules ex_bad_first_info = Inr m \<and> m ''bitcoin:BTC'' \<noteq> None)"
  by (simp add: coindefs_def ex_bad_first_info_def ex_coin_definition ex_coin_definition_noicon)

section \<open>The guards of the commands\<close>

lemma render_guard:
  "\<not> CAN_RENDER g \<Longrightarrow> \<exists>msg. render g render_templates paths = ([], Inl (ClickException msg))"
  by (simp add: render_def)

text \<open>
  C4 at a machine without PIL: \<^verbatim>\<open>CAN_BUILD_DEFS\<close> is False, yet coindefs starts its work and
  ends with \<^verbatim>\<open>NameError\<close> at the first coin (and, on an empty coin list, runs to the end),
  where render without mako and check without requests refuse at once.
\<close>

theorem coindefs_without_build_deps:
  "\<not> CAN_BUILD_DEFS (import_modules ex_installed_no_pil) \<and>
   coindefs (import_modules ex_installed_no_pil) ex_gen_info = Inl (NameError ''Image'') \<and>
   coindefs (import_modules ex_installed_no_pil) ex_empty_info = Inr Map.empty \<and>
   (\<exists>msg. render (import_modules (ex_installed\<lparr>pkg_mako_munch := False\<rparr>))
          (\<lambda>paths. ([Print [PStr ''Rendering'']], Inr ())) []
        = ([], Inl (ClickException msg))) \<and>
   check (requests (import_modules (ex_installed\<lparr>pkg_requests := None\<rparr>)))
          ex_coin_info False True
     = ([], Inl (ClickException ''You must install requests for backend check''))"
  by (simp add: coindefs_def coin_definition_def import_modules_def ex_installed_no_pil_def
      ex_installed_def ex_gen_info_def ex_empty_info_def render_def check_def)

end
